theory Spec2Isabelle
  imports Main "HOL-Library.Multiset"
begin

section \<open>BatchManager: the job scheduler (src/BatchJob.ts)\<close>

text \<open>
  The manager runs on one cooperative event loop: a callback runs without interruption
  until it reaches an \<^verbatim>\<open>await\<close>. Every \<^verbatim>\<open>async\<close> function of the class is
  therefore cut at its \<^verbatim>\<open>await\<close>s, each piece is one function on the manager's
  fields, and an event says which piece runs next.

  A job run (the promise of \<^verbatim>\<open>new task().run()\<close>) is named by a number. The field
  \<open>running\<close> lists the runs that were started and have not settled, \<open>cronAwait\<close> the
  runs a \<^verbatim>\<open>booking\<close> callback awaits, and \<open>loops\<close> has one entry for every call
  of \<^verbatim>\<open>infinite\<close>. \<open>exitCode\<close> is \<open>Some c\<close> once \<^verbatim>\<open>process.exit(c)\<close> was called,
  and \<open>consoleErrors\<close> counts the calls of \<^verbatim>\<open>console.error(e)\<close> in the two
  \<^verbatim>\<open>catch\<close> blocks.
\<close>

datatype loop_state =
    AtHead
  | Holding
  | Awaiting "nat list"

record manager =
  needKillProcess :: bool
  nowRunningTask :: int
  isDiscarding :: bool
  isIpChanging :: bool
  enableDiscarder :: bool
  enableIpManager :: bool
  exitCode :: "int option"
  running :: "nat list"
  cronAwait :: "nat list"
  loops :: "(nat option \<times> loop_state) list"
  nextRun :: nat
  consoleErrors :: nat

text \<open>The fields as the class initialises them, with the two constructor switches.\<close>

definition new_manager :: "bool \<Rightarrow> bool \<Rightarrow> manager" where
  "new_manager enable_discarder enable_ip_manager =
     \<lparr> needKillProcess = False, nowRunningTask = 0, isDiscarding = False,
       isIpChanging = False, enableDiscarder = enable_discarder,
       enableIpManager = enable_ip_manager, exitCode = None, running = [],
       cronAwait = [], loops = [], nextRun = 0, consoleErrors = 0 \<rparr>"

text \<open>\<^verbatim>\<open>nextTick\<close>: the only call of \<^verbatim>\<open>process.exit\<close> in the class.\<close>

definition nextTick :: "manager \<Rightarrow> manager" where
  "nextTick s =
     (if nowRunningTask s = 0 \<and> needKillProcess s then s\<lparr>exitCode := Some 0\<rparr> else s)"

text \<open>
  The four signal handlers the constructor registers. After setting its flag, the handler
  of SIGUSR1 calls \<^verbatim>\<open>discard\<close> and that of SIGUSR2 calls \<^verbatim>\<open>changeIpv6\<close> with
  \<^verbatim>\<open>discardIfFailed\<close> set: the two protocols, below. They touch the manager only
  through the signals they emit.
\<close>

definition on_SIGUSR1 :: "manager \<Rightarrow> manager" where
  "on_SIGUSR1 s = (if \<not> enableDiscarder s then s else s\<lparr>isDiscarding := True\<rparr>)"

definition on_SIGUSR2 :: "manager \<Rightarrow> manager" where
  "on_SIGUSR2 s = (if \<not> enableIpManager s then s else s\<lparr>isIpChanging := True\<rparr>)"

definition on_SIGCONT :: "manager \<Rightarrow> manager" where
  "on_SIGCONT s = s\<lparr>isIpChanging := False\<rparr>"

definition on_SIGINT :: "manager \<Rightarrow> manager" where
  "on_SIGINT s = nextTick (s\<lparr>needKillProcess := True\<rparr>)"

text \<open>
  The guard both \<^verbatim>\<open>booking\<close> and \<^verbatim>\<open>infinite\<close> test:
  \<^verbatim>\<open>this.isDiscarding || this.isIpChanging || this.needKillProcess\<close>.
\<close>

definition HOLDED_JOB_WAIT_INTERVAL :: nat where
  "HOLDED_JOB_WAIT_INTERVAL = 1000"

definition held :: "manager \<Rightarrow> bool" where
  "held s = (isDiscarding s \<or> isIpChanging s \<or> needKillProcess s)"

text \<open>
  The callback of \<^verbatim>\<open>booking\<close>. \<open>booking_resume\<close> is the code after the
  \<^verbatim>\<open>try\<close>: it runs when the awaited run settles, and the \<^verbatim>\<open>catch\<close> before it
  runs when the run was rejected (\<open>ok = False\<close>). \<open>booking_tick\<close> is the callback up
  to the \<^verbatim>\<open>await\<close>; \<open>constructs\<close> is False when \<^verbatim>\<open>new task().run()\<close> throws
  before it returns a promise, and then the \<^verbatim>\<open>catch\<close> and the rest follow at once.
\<close>

definition booking_resume :: "bool \<Rightarrow> manager \<Rightarrow> manager" where
  "booking_resume ok s =
     (let s1 = (if ok then s else s\<lparr>consoleErrors := consoleErrors s + 1\<rparr>);
          s2 = s1\<lparr>nowRunningTask := nowRunningTask s1 - 1\<rparr>
      in nextTick s2)"

definition booking_tick :: "bool \<Rightarrow> manager \<Rightarrow> manager" where
  "booking_tick constructs s =
     (if held s then s
      else
        let s1 = s\<lparr>nowRunningTask := nowRunningTask s + 1\<rparr> in
        if constructs then
          s1\<lparr>running := nextRun s1 # running s1,
             cronAwait := nextRun s1 # cronAwait s1,
             nextRun := Suc (nextRun s1)\<rparr>
        else booking_resume False s1)"

text \<open>
  \<^verbatim>\<open>infinite\<close>. A loop is \<open>(tasks, state)\<close>: \<open>tasks\<close> is \<open>None\<close> for a single class and
  \<open>Some n\<close> for an array of \<open>n\<close> classes; the state is \<open>AtHead\<close> (about to test the
  guard), \<open>Holding\<close> (inside \<^verbatim>\<open>usleep(HOLDED_JOB_WAIT_INTERVAL)\<close>) or \<open>Awaiting g\<close>
  (inside the \<^verbatim>\<open>await\<close> of the iteration, \<open>g\<close> the runs not yet fulfilled).

  \<open>loop_head\<close> is one pass from the top of the \<^verbatim>\<open>while\<close> to the next
  \<^verbatim>\<open>await\<close>. \<open>throws_at\<close> is \<open>Some i\<close> when the \<open>i\<close>-th \<^verbatim>\<open>new v().run()\<close>
  throws: the runs before it were started and stay in flight, nothing awaits them, and
  the \<^verbatim>\<open>catch\<close> and the rest of the iteration follow at once. An empty array has
  nothing to wait for. \<open>loop_resume\<close> is the end of the iteration, \<open>loop_wake\<close> the
  code after the \<^verbatim>\<open>usleep\<close>.
\<close>

definition set_loop :: "nat \<Rightarrow> loop_state \<Rightarrow> manager \<Rightarrow> manager" where
  "set_loop l st s = s\<lparr>loops := (loops s)[l := (fst (loops s ! l), st)]\<rparr>"

definition loop_resume :: "nat \<Rightarrow> bool \<Rightarrow> manager \<Rightarrow> manager" where
  "loop_resume l ok s =
     (let s1 = (if ok then s else s\<lparr>consoleErrors := consoleErrors s + 1\<rparr>);
          s2 = s1\<lparr>nowRunningTask := nowRunningTask s1 - 1\<rparr>
      in set_loop l AtHead (nextTick s2))"

definition loop_wake :: "nat \<Rightarrow> manager \<Rightarrow> manager" where
  "loop_wake l s = set_loop l AtHead (nextTick s)"

definition task_count :: "nat option \<Rightarrow> nat" where
  "task_count tasks = (case tasks of None \<Rightarrow> 1 | Some n \<Rightarrow> n)"

definition loop_head :: "nat \<Rightarrow> nat option \<Rightarrow> manager \<Rightarrow> manager" where
  "loop_head l throws_at s =
     (if held s then set_loop l Holding s
      else
        let n = task_count (fst (loops s ! l));
            started = (case throws_at of None \<Rightarrow> n | Some i \<Rightarrow> min i n);
            threw = (case throws_at of None \<Rightarrow> False | Some i \<Rightarrow> i < n);
            new_runs = [nextRun s ..< nextRun s + started];
            s1 = s\<lparr>nowRunningTask := nowRunningTask s + 1,
                   running := new_runs @ running s,
                   nextRun := nextRun s + started\<rparr>
        in if threw then loop_resume l False s1
           else if new_runs = [] then loop_resume l True s1
           else set_loop l (Awaiting new_runs) s1)"

text \<open>
  The run \<open>r\<close> that loop \<open>l\<close> awaits settles. \<^verbatim>\<open>Promise.all\<close> is fulfilled when its
  last run is fulfilled, and is rejected as soon as one run is rejected, whatever the
  others do: they stay in \<open>running\<close>.
\<close>

definition loop_settled :: "nat \<Rightarrow> nat \<Rightarrow> bool \<Rightarrow> manager \<Rightarrow> manager" where
  "loop_settled l r ok s =
     (case snd (loops s ! l) of
        Awaiting g \<Rightarrow>
          (let s1 = s\<lparr>running := removeAll r (running s)\<rparr> in
           if \<not> ok then loop_resume l False s1
           else if remove1 r g = [] then loop_resume l True s1
           else set_loop l (Awaiting (remove1 r g)) s1)
      | _ \<Rightarrow> s)"

definition cron_settled :: "nat \<Rightarrow> bool \<Rightarrow> manager \<Rightarrow> manager" where
  "cron_settled r ok s =
     booking_resume ok
       (s\<lparr>running := removeAll r (running s), cronAwait := remove1 r (cronAwait s)\<rparr>)"

text \<open>
  The events of the process, and the step each one makes. An event that cannot happen in
  the state (a run that nobody awaits there, a loop that is elsewhere) changes nothing,
  and neither does any event after \<^verbatim>\<open>process.exit\<close>.
\<close>

datatype event =
    SIGUSR1
  | SIGUSR2
  | SIGCONT
  | SIGINT
  | CronTick bool
  | CronSettled nat bool
  | Infinite "nat option"
  | LoopHead nat "nat option"
  | LoopWake nat
  | LoopSettled nat nat bool
  | StraySettled nat

definition awaited :: "manager \<Rightarrow> nat set" where
  "awaited s =
     set (cronAwait s) \<union>
     (\<Union>p \<in> set (loops s). case snd p of Awaiting g \<Rightarrow> set g | _ \<Rightarrow> {})"

fun fire :: "event \<Rightarrow> manager \<Rightarrow> manager" where
  "fire SIGUSR1 s = on_SIGUSR1 s"
| "fire SIGUSR2 s = on_SIGUSR2 s"
| "fire SIGCONT s = on_SIGCONT s"
| "fire SIGINT s = on_SIGINT s"
| "fire (CronTick constructs) s = booking_tick constructs s"
| "fire (CronSettled r ok) s =
     (if r \<in> set (cronAwait s) then cron_settled r ok s else s)"
| "fire (Infinite tasks) s = s\<lparr>loops := loops s @ [(tasks, AtHead)]\<rparr>"
| "fire (LoopHead l throws_at) s =
     (if l < length (loops s) \<and> snd (loops s ! l) = AtHead then loop_head l throws_at s
      else s)"
| "fire (LoopWake l) s =
     (if l < length (loops s) \<and> snd (loops s ! l) = Holding then loop_wake l s else s)"
| "fire (LoopSettled l r ok) s =
     (if l < length (loops s) \<and>
         (case snd (loops s ! l) of Awaiting g \<Rightarrow> r \<in> set g | _ \<Rightarrow> False)
      then loop_settled l r ok s else s)"
| "fire (StraySettled r) s =
     (if r \<in> awaited s then s else s\<lparr>running := removeAll r (running s)\<rparr>)"

definition step :: "event \<Rightarrow> manager \<Rightarrow> manager" where
  "step e s = (if exitCode s \<noteq> None then s else fire e s)"

fun run :: "event list \<Rightarrow> manager \<Rightarrow> manager" where
  "run [] s = s"
| "run (e # es) s = run es (step e s)"

text \<open>The callbacks that have incremented the counter and not yet decremented it.\<close>

definition is_awaiting :: "nat option \<times> loop_state \<Rightarrow> bool" where
  "is_awaiting p = (case snd p of Awaiting g \<Rightarrow> True | _ \<Rightarrow> False)"

definition open_callbacks :: "manager \<Rightarrow> nat" where
  "open_callbacks s = length (cronAwait s) + length (filter is_awaiting (loops s))"

section \<open>The pid file of a protocol\<close>

text \<open>
  Both protocol classes keep a pid file under \<^verbatim>\<open>os.tmpdir()\<close> and elect a
  supervising process with the same code. The file system is a map from a path to the
  file's text, and a text is kept as what \<^verbatim>\<open>parseInt\<close> reads from it: \<open>Pid n\<close> for
  the decimal text of \<open>n\<close>, which is what \<^verbatim>\<open>writeFileSync(path, process.pid)\<close>
  stores, and \<open>NaN\<close> for a text with no leading number, the empty file among them.

  \<^verbatim>\<open>writeFileSync\<close> with the flag \<^verbatim>\<open>wx\<close> is two system calls: an exclusive create
  (\<open>open_wx\<close>, failing with \<open>EEXIST\<close> when the path exists and leaving an empty file
  otherwise), then the write of the text.
\<close>

datatype content = NaN | Pid nat

type_synonym files = "string \<Rightarrow> content option"

datatype fs_error = EEXIST | ENOENT

definition open_wx :: "string \<Rightarrow> files \<Rightarrow> fs_error + files" where
  "open_wx path fs = (case fs path of Some c \<Rightarrow> Inl EEXIST | None \<Rightarrow> Inr (fs(path \<mapsto> NaN)))"

definition write_pid :: "string \<Rightarrow> nat \<Rightarrow> files \<Rightarrow> files" where
  "write_pid path own fs = fs(path \<mapsto> Pid own)"

definition writeFileSync_wx :: "string \<Rightarrow> nat \<Rightarrow> files \<Rightarrow> fs_error + files" where
  "writeFileSync_wx path own fs =
     (case open_wx path fs of Inl e \<Rightarrow> Inl e | Inr fs1 \<Rightarrow> Inr (write_pid path own fs1))"

definition readFileSync :: "string \<Rightarrow> files \<Rightarrow> fs_error + content" where
  "readFileSync path fs = (case fs path of None \<Rightarrow> Inl ENOENT | Some c \<Rightarrow> Inr c)"

definition unlinkSync :: "string \<Rightarrow> files \<Rightarrow> fs_error + files" where
  "unlinkSync path fs = (case fs path of None \<Rightarrow> Inl ENOENT | Some c \<Rightarrow> Inr (fs(path := None)))"

text \<open>
  \<^verbatim>\<open>isSupervisionProcess\<close>, the same in both classes: the result is the new file
  system and either the boolean returned or the error of \<^verbatim>\<open>readFileSync\<close>, which
  the \<^verbatim>\<open>catch\<close> block does not guard.
\<close>

definition isSupervisionProcess :: "string \<Rightarrow> nat \<Rightarrow> files \<Rightarrow> files \<times> (fs_error + bool)" where
  "isSupervisionProcess path own fs =
     (case writeFileSync_wx path own fs of
        Inr fs1 \<Rightarrow> (fs1, Inr True)
      | Inl e \<Rightarrow>
          (case readFileSync path fs of
             Inl e2 \<Rightarrow> (fs, Inl e2)
           | Inr spid \<Rightarrow> (fs, Inr (spid = Pid own))))"

definition pidFileExists :: "string \<Rightarrow> files \<Rightarrow> bool" where
  "pidFileExists path fs = (fs path \<noteq> None)"

definition unlinkPidFile :: "string \<Rightarrow> files \<Rightarrow> files" where
  "unlinkPidFile path fs = (case unlinkSync path fs of Inl e \<Rightarrow> fs | Inr fs1 \<Rightarrow> fs1)"

definition ip_manager_pidFile :: "string \<Rightarrow> string" where
  "ip_manager_pidFile tmpdir = tmpdir @ ''/instance-ip-manager.pid''"

definition discarder_pidFile :: "string \<Rightarrow> string" where
  "discarder_pidFile tmpdir = tmpdir @ ''/instance-discarder.pid''"

text \<open>
  Two processes of the host calling \<^verbatim>\<open>isSupervisionProcess\<close> at the same time
  interleave at the system calls. A caller is at its exclusive create (\<open>AtOpen\<close>), at
  the write after a create that succeeded (\<open>AtWrite\<close>), at the read after a create that
  failed (\<open>AtRead\<close>), or has finished: \<open>Created\<close> (returned true after its own
  create), \<open>Compared b\<close> (returned \<^verbatim>\<open>spid === process.pid\<close>) or \<open>Thrown e\<close>.
  A schedule is a list of booleans: True lets the first caller make its next system
  call, False the second.
\<close>

datatype pc = AtOpen | AtWrite | AtRead | Created | Compared bool | Thrown fs_error

fun proc_step :: "string \<Rightarrow> nat \<Rightarrow> files \<times> pc \<Rightarrow> files \<times> pc" where
  "proc_step path own (fs, AtOpen) =
     (case open_wx path fs of Inr fs1 \<Rightarrow> (fs1, AtWrite) | Inl e \<Rightarrow> (fs, AtRead))"
| "proc_step path own (fs, AtWrite) = (write_pid path own fs, Created)"
| "proc_step path own (fs, AtRead) =
     (case readFileSync path fs of
        Inl e \<Rightarrow> (fs, Thrown e)
      | Inr spid \<Rightarrow> (fs, Compared (spid = Pid own)))"
| "proc_step path own (fs, a) = (fs, a)"






section \<open>What the protocols call\<close>

text \<open>
  A protocol run is a function of the replies its remote calls get, and returns the calls
  it made, in order, beside its result. A promise is rejected or resolved with a value.
\<close>

datatype 'a reply = Rejected | Resolved 'a

datatype call =
    GetMetadata
  | DescribeInstances string
  | UnassignIpv6Addresses string "string list"
  | AssignIpv6Addresses string nat
  | Usleep nat
  | MyIpFromRemote
  | UnlinkPidFile string
  | Emit event
  | ConnectPM2
  | ListProcesses
  | StopProcess nat
  | TerminateInstances string
  | DetachInstances string bool string
  | WaitTimeExceeded
  | RetryDiscardAfter nat

record instance_meta =
  region :: string
  instanceId :: string

section \<open>InstanceIpManager (src/ec2/InstanceIpManager.ts)\<close>

definition IP_CHANGE_LEADTIME :: nat where
  "IP_CHANGE_LEADTIME = 10000"

definition MYIP_CHECK_RETRY :: nat where
  "MYIP_CHECK_RETRY = 30"

definition MYIP_CHECK_RETRY_DURATION :: nat where
  "MYIP_CHECK_RETRY_DURATION = 5000"

text \<open>
  The reply of \<^verbatim>\<open>describeInstances\<close>, with the optional fields of the SDK's types as
  options. An address entry is its optional \<^verbatim>\<open>Ipv6Address\<close>.
\<close>

record network_interface =
  NetworkInterfaceId :: "string option"
  Ipv6Addresses :: "string option list option"

datatype ec2_instance = Instance (NetworkInterfaces: "network_interface list option")

datatype reservation = Reservation (Instances: "ec2_instance list option")

datatype instance_detail = InstanceDetail (Reservations: "reservation list option")

record assigned_result =
  AssignedIpv6Addresses :: "string list option"

text \<open>
  The replies one run of the remediation gets. \<open>myIpFromRemote c i\<close> is the reply of the
  \<open>i\<close>-th lookup of the run, counted from 0; \<open>Rejected\<close> covers a network error and the
  two-second timer of \<^verbatim>\<open>myIpFromRemote\<close>.
\<close>

record cloud =
  metadata :: "instance_meta reply"
  describeInstances :: "instance_detail option reply"
  unassignIpv6Addresses :: "unit reply"
  assignIpv6Addresses :: "assigned_result option reply"
  myIpFromRemote :: "nat \<Rightarrow> string reply"

text \<open>
  The errors a run can end with. \<open>NoAddressAssigned\<close> (after the assignment) and
  \<open>ConfirmationExhausted\<close> (after the polling) carry the same message in the source and
  are told apart here by where they are thrown.
\<close>

datatype error =
    MetadataFailed
  | DescribeRejected
  | NoInstanceDetail
  | NoNetworkInterface
  | UnassignRejected
  | AssignRejected
  | NoAddressAssigned
  | AddressReused
  | ConfirmationExhausted
  | PidFileError fs_error
  | ConnectRejected
  | ListRejected
  | StopRejected
  | TerminateRejected
  | DetachRejected

text \<open>JavaScript's truth value of an optional string: undefined and the empty string are false.\<close>

definition truthy :: "string option \<Rightarrow> bool" where
  "truthy s = (case s of None \<Rightarrow> False | Some v \<Rightarrow> v \<noteq> [])"

definition or_empty :: "'a list option \<Rightarrow> 'a list" where
  "or_empty xs = (case xs of None \<Rightarrow> [] | Some ys \<Rightarrow> ys)"

text \<open>The three nested loops of \<^verbatim>\<open>networkInfo\<close>: every interface overwrites the variable.\<close>

definition pick_interface :: "instance_detail \<Rightarrow> network_interface option" where
  "pick_interface detail =
     fold (\<lambda>reservation found.
         fold (\<lambda>inst found1.
             fold (\<lambda>ninterface found2. Some ninterface)
               (or_empty (NetworkInterfaces inst)) found1)
           (or_empty (Instances reservation)) found)
       (or_empty (Reservations detail)) None"

fun push_ips :: "string option list \<Rightarrow> string list \<Rightarrow> string list" where
  "push_ips [] ips = ips"
| "push_ips (ip # rest) ips =
     push_ips rest (case ip of None \<Rightarrow> ips | Some a \<Rightarrow> if truthy ip then ips @ [a] else ips)"

record network_info =
  ni_id :: string
  ni_ips :: "string list"

definition networkInfo :: "instance_detail option reply \<Rightarrow> error + network_info" where
  "networkInfo described =
     (case described of
        Rejected \<Rightarrow> Inl DescribeRejected
      | Resolved None \<Rightarrow> Inl NoInstanceDetail
      | Resolved (Some detail) \<Rightarrow>
          (case pick_interface detail of
             None \<Rightarrow> Inl NoNetworkInterface
           | Some ninterface \<Rightarrow>
               (case NetworkInterfaceId ninterface of
                  None \<Rightarrow> Inl NoNetworkInterface
                | Some nid \<Rightarrow>
                    if nid = [] then Inl NoNetworkInterface
                    else Inr \<lparr> ni_id = nid,
                               ni_ips = push_ips (or_empty (Ipv6Addresses ninterface)) [] \<rparr>)))"

text \<open>
  The confirmation loop of \<^verbatim>\<open>requestChangeIpV6\<close>, from attempt \<open>i\<close> on: the result
  is \<^verbatim>\<open>changedConfirm\<close> and the calls made. \<open>newIp\<close> is \<open>None\<close> when
  \<^verbatim>\<open>AssignedIpv6Addresses[0]\<close> is undefined, which no lookup result equals.
\<close>

function confirm :: "cloud \<Rightarrow> string option \<Rightarrow> nat \<Rightarrow> bool \<times> call list" where
  "confirm c newIp i =
     (if i < MYIP_CHECK_RETRY then
        (if (case myIpFromRemote c i of Rejected \<Rightarrow> False | Resolved ipFromRemote \<Rightarrow> Some ipFromRemote = newIp)
         then (True, [MyIpFromRemote])
         else (case confirm c newIp (Suc i) of
                 (changedConfirm, calls) \<Rightarrow>
                   (changedConfirm, MyIpFromRemote # Usleep MYIP_CHECK_RETRY_DURATION # calls)))
      else (False, []))"
  by pat_completeness auto
termination
  by (relation "measure (\<lambda>(c, newIp, i). MYIP_CHECK_RETRY - i)") auto

definition first_address :: "string list \<Rightarrow> string option" where
  "first_address addresses = (case addresses of [] \<Rightarrow> None | a # rest \<Rightarrow> Some a)"

definition index_found :: "string list \<Rightarrow> string option \<Rightarrow> bool" where
  "index_found ips newIp = (case newIp of None \<Rightarrow> False | Some a \<Rightarrow> a \<in> set ips)"

text \<open>
  \<^verbatim>\<open>requestChangeIpV6\<close>, in two parts: \<open>rotate_address\<close> is the code from the unassignment to
  the test of the new address, given the interface found; the whole function fetches the
  metadata and the interface first and polls afterwards.
\<close>

definition rotate_address :: "cloud \<Rightarrow> network_info \<Rightarrow> call list \<times> (error + string option)" where
  "rotate_address c info =
     (let unassign = (if ni_ips info \<noteq> [] then [UnassignIpv6Addresses (ni_id info) (ni_ips info)] else [])
      in if ni_ips info \<noteq> [] \<and> unassignIpv6Addresses c = Rejected then (unassign, Inl UnassignRejected)
         else
           let calls = unassign @ [AssignIpv6Addresses (ni_id info) 1] in
           (case assignIpv6Addresses c of
              Rejected \<Rightarrow> (calls, Inl AssignRejected)
            | Resolved None \<Rightarrow> (calls, Inl NoAddressAssigned)
            | Resolved (Some assignedResult) \<Rightarrow>
                (case AssignedIpv6Addresses assignedResult of
                   None \<Rightarrow> (calls, Inl NoAddressAssigned)
                 | Some addresses \<Rightarrow>
                     let newIp = first_address addresses in
                     if index_found (ni_ips info) newIp then (calls, Inl AddressReused)
                     else (calls, Inr newIp))))"

definition requestChangeIpV6 :: "cloud \<Rightarrow> call list \<times> (error + string option)" where
  "requestChangeIpV6 c =
     (case metadata c of
        Rejected \<Rightarrow> ([GetMetadata], Inl MetadataFailed)
      | Resolved instanceMeta \<Rightarrow>
          let fetched = [GetMetadata, DescribeInstances (instanceId instanceMeta)] in
          (case networkInfo (describeInstances c) of
             Inl e \<Rightarrow> (fetched, Inl e)
           | Inr info \<Rightarrow>
               (case rotate_address c info of
                  (calls, Inl e) \<Rightarrow> (fetched @ calls, Inl e)
                | (calls, Inr newIp) \<Rightarrow>
                    (case confirm c newIp 0 of
                       (changedConfirm, polls) \<Rightarrow>
                         let all_calls = fetched @ calls @ [Usleep IP_CHANGE_LEADTIME] @ polls in
                         if \<not> changedConfirm then (all_calls, Inl ConfirmationExhausted)
                         else (all_calls, Inr newIp)))))"

text \<open>
  \<^verbatim>\<open>changeIpv6\<close>. The state is the file system and the field \<open>isWorking\<close>; the result
  is \<open>Inr None\<close> for the plain \<^verbatim>\<open>return\<close> of a process that is not supervising or is
  busy, \<open>Inr newIp\<close> on success and \<open>Inl e\<close> for the error thrown to the caller.
\<close>

definition changeIpv6 ::
  "string \<Rightarrow> nat \<Rightarrow> bool \<Rightarrow> cloud \<Rightarrow> files \<times> bool \<Rightarrow> (files \<times> bool) \<times> call list \<times> (error + string option)" where
  "changeIpv6 path own discardIfFailed c st =
     (case st of (fs, isWorking) \<Rightarrow>
        (case isSupervisionProcess path own fs of
           (fs1, Inl e) \<Rightarrow> ((fs1, isWorking), [], Inl (PidFileError e))
         | (fs1, Inr False) \<Rightarrow> ((fs1, isWorking), [], Inr None)
         | (fs1, Inr True) \<Rightarrow>
             if isWorking then ((fs1, isWorking), [], Inr None)
             else
               (case requestChangeIpV6 c of
                  (calls, Inr newIp) \<Rightarrow>
                    ((unlinkPidFile path fs1, False),
                     calls @ [UnlinkPidFile path, Emit SIGCONT], Inr newIp)
                | (calls, Inl e) \<Rightarrow>
                    ((unlinkPidFile path fs1, False),
                     calls @ [UnlinkPidFile path] @ (if discardIfFailed then [Emit SIGUSR1] else []),
                     Inl e))))"

section \<open>InstanceDiscarder (the class the manager imports from ./ec2/InstanceDiscarder)\<close>

definition RETRY_INTERVAL :: nat where
  "RETRY_INTERVAL = 10 * 1000"


text \<open>
  A process as \<^verbatim>\<open>pm2.list\<close> describes it, with the optional fields of pm2's types:
  \<open>pm2_env\<close> is \<open>None\<close> when the field is undefined and \<open>Some st\<close> otherwise, \<open>st\<close> its
  optional \<^verbatim>\<open>status\<close>.
\<close>

datatype status = online | stopping | stopped | launching | errored | one_launch_status

record process_description =
  pid :: "nat option"
  pm_id :: "nat option"
  pm2_env :: "status option option"

text \<open>
  The fields of the class. \<open>killProcessTimeoutHandle\<close> is \<open>Some due\<close> while the interval
  timer is set, \<open>due\<close> the time in milliseconds of its next expiry. The field
  \<^verbatim>\<open>isDiscarding\<close> of this class is \<open>discarding\<close> here, apart from the manager's.
\<close>

record discarder =
  assignedAsgNames :: "string list option"
  discarding :: bool
  killProcessTimeoutHandle :: "nat option"

text \<open>The replies one attempt gets: pm2's, the configuration's, the metadata's and AWS's.\<close>

record host =
  connectPM2 :: "unit reply"
  nodeProcesses :: "process_description list reply"
  stopNodeProcess :: "nat \<Rightarrow> unit reply"
  isProduction :: bool
  ec2_metadata :: "instance_meta reply"
  terminateInstances :: "unit reply"
  detachInstances :: "string \<Rightarrow> unit reply"

text \<open>
  The loop over the process list in \<^verbatim>\<open>discard\<close>: the accumulator is
  \<^verbatim>\<open>supervisionProcessPmId\<close> and the pm2 ids \<^verbatim>\<open>stopNodeProcess\<close> was called
  with, in order (each call starts the stop at once; \<^verbatim>\<open>tasks\<close> holds its promise).
\<close>

fun stop_others ::
  "nat \<Rightarrow> process_description list \<Rightarrow> nat option \<times> nat list \<Rightarrow> nat option \<times> nat list" where
  "stop_others own [] acc = acc"
| "stop_others own (proc # rest) (supervisionProcessPmId, tasks) =
     (case (pm_id proc, pm2_env proc) of
        (Some proc_pm_id, Some proc_status) \<Rightarrow>
          if pid proc = Some own then stop_others own rest (Some proc_pm_id, tasks)
          else if proc_status = Some online \<or> proc_status = Some launching
               then stop_others own rest (supervisionProcessPmId, tasks @ [proc_pm_id])
               else stop_others own rest (supervisionProcessPmId, tasks)
      | _ \<Rightarrow> stop_others own rest (supervisionProcessPmId, tasks))"

text \<open>\<^verbatim>\<open>terminateInstance\<close>, with its loop over the group names.\<close>

fun detach_all :: "host \<Rightarrow> string \<Rightarrow> string list \<Rightarrow> call list \<times> (error + unit)" where
  "detach_all h inst [] = ([], Inr ())"
| "detach_all h inst (asgName # rest) =
     (case detachInstances h asgName of
        Rejected \<Rightarrow> ([DetachInstances asgName False inst], Inl DetachRejected)
      | Resolved u \<Rightarrow>
          (case detach_all h inst rest of
             (calls, r) \<Rightarrow> (DetachInstances asgName False inst # calls, r)))"

definition terminateInstance :: "host \<Rightarrow> string list option \<Rightarrow> call list \<times> (error + unit)" where
  "terminateInstance h asgNames =
     (if \<not> isProduction h then ([], Inr ())
      else
        (case ec2_metadata h of
           Rejected \<Rightarrow> ([GetMetadata], Inl MetadataFailed)
         | Resolved instanceMeta \<Rightarrow>
             let calls = [GetMetadata, TerminateInstances (instanceId instanceMeta)] in
             (case terminateInstances h of
                Rejected \<Rightarrow> (calls, Inl TerminateRejected)
              | Resolved u \<Rightarrow>
                  (case asgNames of
                     None \<Rightarrow> (calls, Inr ())
                   | Some names \<Rightarrow>
                       (case detach_all h (instanceId instanceMeta) names of
                          (detached, r) \<Rightarrow> (calls @ detached, r))))))"



text \<open>
  The \<^verbatim>\<open>try\<close> block and the \<^verbatim>\<open>catch\<close> of \<^verbatim>\<open>discard\<close>. \<open>drain\<close> is the block up to
  \<^verbatim>\<open>Promise.all(tasks)\<close>: it returns \<^verbatim>\<open>supervisionProcessPmId\<close>. An attempt ends
  \<open>Finished\<close> (the function returned), \<open>WaitingForOwnStop\<close> (inside
  \<^verbatim>\<open>usleep(Infinity)\<close>) or \<open>Retrying\<close> (the \<^verbatim>\<open>catch\<close> ran and set the retry timer).
\<close>

definition drain :: "nat \<Rightarrow> host \<Rightarrow> call list \<times> (error + nat option)" where
  "drain own h =
     (case connectPM2 h of
        Rejected \<Rightarrow> ([ConnectPM2], Inl ConnectRejected)
      | Resolved u \<Rightarrow>
          (case nodeProcesses h of
             Rejected \<Rightarrow> ([ConnectPM2, ListProcesses], Inl ListRejected)
           | Resolved processList \<Rightarrow>
               (case stop_others own processList (None, []) of
                  (supervisionProcessPmId, tasks) \<Rightarrow>
                    let calls = [ConnectPM2, ListProcesses] @ map StopProcess tasks in
                    if list_all (\<lambda>pmId. stopNodeProcess h pmId = Resolved ()) tasks
                    then (calls, Inr supervisionProcessPmId)
                    else (calls, Inl StopRejected))))"

datatype ending = Finished | WaitingForOwnStop | Retrying error

definition discard_catch ::
  "discarder \<times> files \<Rightarrow> call list \<Rightarrow> error \<Rightarrow> (discarder \<times> files) \<times> call list \<times> ending" where
  "discard_catch st calls e =
     (case st of (d, fs) \<Rightarrow>
        ((d\<lparr>discarding := False\<rparr>, fs), calls @ [RetryDiscardAfter RETRY_INTERVAL], Retrying e))"

definition discard_try ::
  "string \<Rightarrow> nat \<Rightarrow> host \<Rightarrow> discarder \<times> files \<Rightarrow> (discarder \<times> files) \<times> call list \<times> ending" where
  "discard_try path own h st =
     (case st of (d, fs) \<Rightarrow>
        (case drain own h of
           (drained, Inl e) \<Rightarrow> discard_catch (d, fs) drained e
         | (drained, Inr supervisionProcessPmId) \<Rightarrow>
             (case terminateInstance h (assignedAsgNames d) of
                (terminated, Inl e) \<Rightarrow> discard_catch (d, fs) (drained @ terminated) e
              | (terminated, Inr u) \<Rightarrow>
                  let fs1 = unlinkPidFile path fs;
                      d1 = d\<lparr>killProcessTimeoutHandle := None\<rparr>;
                      calls = drained @ terminated @ [UnlinkPidFile path]
                  in (case supervisionProcessPmId of
                        None \<Rightarrow> ((d1\<lparr>discarding := False\<rparr>, fs1), calls, Finished)
                      | Some own_pm_id \<Rightarrow>
                          (case stopNodeProcess h own_pm_id of
                             Rejected \<Rightarrow>
                               discard_catch (d1, fs1) (calls @ [StopProcess own_pm_id]) StopRejected
                           | Resolved v \<Rightarrow>
                               ((d1, fs1), calls @ [StopProcess own_pm_id], WaitingForOwnStop))))))"

text \<open>
  The statement after \<^verbatim>\<open>usleep(Infinity)\<close>, should that sleep ever return.
\<close>

definition discard_after_sleep :: "discarder \<Rightarrow> discarder" where
  "discard_after_sleep d = d\<lparr>discarding := False\<rparr>"





section \<open>Predicates of the proofs\<close>

text \<open>
  \<open>balanced\<close>: the counter is the number of callbacks between their increment and their
  decrement. \<open>exit_gate\<close>: if \<^verbatim>\<open>process.exit\<close> was called, it was with code 0, no
  callback was counted and the kill had been requested.
\<close>

definition balanced :: "manager \<Rightarrow> bool" where
  "balanced s = (nowRunningTask s = int (open_callbacks s))"

definition exit_gate :: "manager \<Rightarrow> bool" where
  "exit_gate s =
     (exitCode s = None \<or> (exitCode s = Some 0 \<and> nowRunningTask s = 0 \<and> needKillProcess s))"

text \<open>
  Runs and their waiters. \<open>group_of\<close> is the group a loop awaits, \<open>waiting\<close> lists
  every run some callback awaits, and \<open>single_only\<close> holds of every event but the call
  of \<^verbatim>\<open>infinite\<close> with an array of two or more classes. \<open>tidy\<close>: the runs in
  flight are the awaited ones, each once, their numbers are below the next one, and every
  loop has at most one class and awaits at most one run.
\<close>

definition group_of :: "nat option \<times> loop_state \<Rightarrow> nat list" where
  "group_of p = (case snd p of Awaiting g \<Rightarrow> g | _ \<Rightarrow> [])"

definition waiting :: "manager \<Rightarrow> nat list" where
  "waiting s = cronAwait s @ concat (map group_of (loops s))"

fun single_only :: "event \<Rightarrow> bool" where
  "single_only (Infinite (Some n)) = (n \<le> 1)"
| "single_only e = True"

definition tidy :: "manager \<Rightarrow> bool" where
  "tidy s =
     (mset (running s) = mset (waiting s) \<and> distinct (running s) \<and>
      list_all (\<lambda>r. r < nextRun s) (running s) \<and>
      list_all (\<lambda>p. task_count (fst p) \<le> 1 \<and> length (group_of p) \<le> 1) (loops s))"






fun is_emit :: "call \<Rightarrow> bool" where
  "is_emit (Emit e) = True"
| "is_emit c = False"

definition polling :: "nat \<Rightarrow> call list" where
  "polling n = concat (replicate n [MyIpFromRemote, Usleep MYIP_CHECK_RETRY_DURATION])"


text \<open>
  The drain targets in the words of the specification: a process whose status is online
  or launching and which is not the coordinating process. \<open>stop_requests\<close> are the pm2
  ids of the targets of a process list, in its order; a target without an id has none to
  stop it by.
\<close>

definition drain_target :: "nat \<Rightarrow> process_description \<Rightarrow> bool" where
  "drain_target own proc =
     (pid proc \<noteq> Some own \<and>
      (pm2_env proc = Some (Some online) \<or> pm2_env proc = Some (Some launching)))"

definition stop_requests :: "nat \<Rightarrow> process_description list \<Rightarrow> nat list" where
  "stop_requests own procs =
     List.map_filter (\<lambda>proc. if drain_target own proc then pm_id proc else None) procs"


section \<open>Inputs of the examples\<close>

text \<open>
  The discarder as its constructor leaves it. A production host whose pm2 daemon cannot
  be reached and whose termination request AWS rejects. A host with four pm2 processes:
  the coordinating process (pid 7), an online worker, a stopped one and a launching one
  whose stop fails.
\<close>

definition new_discarder :: "string list option \<Rightarrow> discarder" where
  "new_discarder asgNames =
     \<lparr> assignedAsgNames = asgNames, discarding = False, killProcessTimeoutHandle = None \<rparr>"


definition four_processes :: "process_description list" where
  "four_processes =
     [\<lparr> pid = Some 7, pm_id = Some 0, pm2_env = Some (Some online) \<rparr>,
      \<lparr> pid = Some 8, pm_id = Some 1, pm2_env = Some (Some online) \<rparr>,
      \<lparr> pid = Some 0, pm_id = Some 2, pm2_env = Some (Some stopped) \<rparr>,
      \<lparr> pid = Some 9, pm_id = Some 3, pm2_env = Some (Some launching) \<rparr>]"

definition busy_host :: host where
  "busy_host =
     \<lparr> connectPM2 = Resolved (), nodeProcesses = Resolved four_processes,
       stopNodeProcess = (\<lambda>pmId. if pmId = 3 then Rejected else Resolved ()),
       isProduction = True,
       ec2_metadata = Resolved \<lparr> region = ''ap-northeast-2'', instanceId = ''i-0'' \<rparr>,
       terminateInstances = Resolved (), detachInstances = (\<lambda>asgName. Resolved ()) \<rparr>"

text \<open>
  A cloud whose instance has one interface bound to one address, where the assignment
  returns the list \<open>assigned\<close> and the lookups answer as \<open>echo\<close> says.
\<close>

definition bound_address :: string where
  "bound_address = ''2001:db8::a''"

definition fresh_address :: string where
  "fresh_address = ''2001:db8::b''"

definition example_cloud :: "string list option \<Rightarrow> (nat \<Rightarrow> string reply) \<Rightarrow> cloud" where
  "example_cloud assigned echo =
     \<lparr> metadata = Resolved \<lparr> region = ''ap-northeast-2'', instanceId = ''i-0'' \<rparr>,
       describeInstances =
         Resolved (Some (InstanceDetail (Some [Reservation (Some [Instance (Some
           [\<lparr> NetworkInterfaceId = Some ''eni-0'',
               Ipv6Addresses = Some [Some bound_address] \<rparr>])])]))),
       unassignIpv6Addresses = Resolved (),
       assignIpv6Addresses = Resolved (Some \<lparr> AssignedIpv6Addresses = assigned \<rparr>),
       myIpFromRemote = echo \<rparr>"

section \<open>The scheduler's counter and its exit\<close>

lemma nextTick_fields [simp]:
  "nowRunningTask (nextTick s) = nowRunningTask s"
  "cronAwait (nextTick s) = cronAwait s"
  "loops (nextTick s) = loops s"
  "running (nextTick s) = running s"
  "nextRun (nextTick s) = nextRun s"
  "needKillProcess (nextTick s) = needKillProcess s"
  "isDiscarding (nextTick s) = isDiscarding s"
  "isIpChanging (nextTick s) = isIpChanging s"
  "consoleErrors (nextTick s) = consoleErrors s"
  by (simp_all add: nextTick_def)

lemma nextTick_exit:
  "exitCode (nextTick s) =
     (if nowRunningTask s = 0 \<and> needKillProcess s then Some 0 else exitCode s)"
  by (simp add: nextTick_def)

lemma set_loop_fields [simp]:
  "nowRunningTask (set_loop l st s) = nowRunningTask s"
  "cronAwait (set_loop l st s) = cronAwait s"
  "loops (set_loop l st s) = (loops s)[l := (fst (loops s ! l), st)]"
  "running (set_loop l st s) = running s"
  "nextRun (set_loop l st s) = nextRun s"
  "needKillProcess (set_loop l st s) = needKillProcess s"
  "exitCode (set_loop l st s) = exitCode s"
  "consoleErrors (set_loop l st s) = consoleErrors s"
  by (simp_all add: set_loop_def)

lemma count_update_nat:
  "l < length xs \<Longrightarrow>
   length (filter P (xs[l := y])) + (if P (xs ! l) then 1 else 0) =
   length (filter P xs) + (if P y then 1 else 0)"
proof (induction xs arbitrary: l)
  case Nil
  then show ?case by simp
next
  case (Cons x xs)
  then show ?case by (cases l) auto
qed

lemma count_update:
  assumes "l < length xs"
  shows "int (length (filter P (xs[l := y]))) =
   int (length (filter P xs)) - (if P (xs ! l) then 1 else 0) + (if P y then 1 else 0)"
  using count_update_nat[OF assms, of P y] by (simp split: if_splits)

lemma length_remove1_mem: "r \<in> set xs \<Longrightarrow> length xs = Suc (length (remove1 r xs))"
  by (simp add: length_remove1) (cases xs; auto)

text \<open>Every event keeps the counter equal to the number of counted callbacks.\<close>

lemma step_balanced: "balanced s \<Longrightarrow> balanced (step e s)"
proof (cases "exitCode s \<noteq> None")
  case True
  assume "balanced s"
  with True show ?thesis by (simp add: step_def)
next
  case False
  assume b: "balanced s"
  have "balanced (fire e s)"
  proof (cases e)
    case (LoopHead l t)
    show ?thesis
    proof (cases "l < length (loops s) \<and> snd (loops s ! l) = AtHead")
      case True
      then show ?thesis using b LoopHead
        by (auto simp: balanced_def open_callbacks_def loop_head_def loop_resume_def Let_def
            count_update is_awaiting_def split: option.splits)
    next
      case False
      then show ?thesis using b LoopHead by auto
    qed
  next
    case (LoopWake l)
    then show ?thesis using b
      by (auto simp: balanced_def open_callbacks_def loop_wake_def count_update is_awaiting_def)
  next
    case (LoopSettled l r ok)
    then show ?thesis using b
      by (auto simp: balanced_def open_callbacks_def loop_settled_def loop_resume_def Let_def
          count_update is_awaiting_def split: loop_state.splits)
  next
    case (CronSettled r ok)
    then show ?thesis using b length_remove1_mem[of r "cronAwait s"]
      by (auto simp: balanced_def open_callbacks_def cron_settled_def booking_resume_def Let_def)
  qed (use b in \<open>auto simp: balanced_def open_callbacks_def on_SIGUSR1_def on_SIGUSR2_def
        on_SIGCONT_def on_SIGINT_def booking_tick_def booking_resume_def Let_def is_awaiting_def\<close>)
  with False show ?thesis by (simp add: step_def)
qed

lemma run_balanced: "balanced s \<Longrightarrow> balanced (run es s)"
  by (induction es arbitrary: s) (auto intro: step_balanced)

lemma new_manager_balanced: "balanced (new_manager d i)"
  by (simp add: balanced_def open_callbacks_def new_manager_def)

text \<open>
  C10. From the state the constructor leaves, after any sequence of events (signals,
  ticks, loop iterations, runs fulfilled or rejected), \<open>nowRunningTask\<close> equals the
  number of callbacks that have incremented it and not yet decremented it, so it is never
  negative. The code after each \<^verbatim>\<open>try\<close> decrements by exactly one whether the
  awaited run was fulfilled or rejected, and a tick or an iteration whose job throws
  before the \<^verbatim>\<open>await\<close> leaves the counter as it found it.
\<close>

theorem runningTaskCount_never_negative:
  "nowRunningTask (run es (new_manager d i)) = int (open_callbacks (run es (new_manager d i))) \<and>
   0 \<le> nowRunningTask (run es (new_manager d i)) \<and>
   nowRunningTask (booking_resume ok s) = nowRunningTask s - 1 \<and>
   nowRunningTask (loop_resume l ok s) = nowRunningTask s - 1 \<and>
   nowRunningTask (booking_tick False s) = nowRunningTask s \<and>
   nowRunningTask (loop_head l (Some 0) s) = nowRunningTask s"
proof -
  have "balanced (run es (new_manager d i))"
    by (rule run_balanced[OF new_manager_balanced])
  then have "nowRunningTask (run es (new_manager d i)) = int (open_callbacks (run es (new_manager d i)))"
    by (simp add: balanced_def)
  moreover have "nowRunningTask (booking_resume ok s) = nowRunningTask s - 1"
    by (simp add: booking_resume_def Let_def)
  moreover have "nowRunningTask (loop_resume l ok s) = nowRunningTask s - 1"
    by (simp add: loop_resume_def Let_def)
  moreover have "nowRunningTask (booking_tick False s) = nowRunningTask s"
    by (simp add: booking_tick_def booking_resume_def Let_def)
  moreover have "nowRunningTask (loop_head l (Some 0) s) = nowRunningTask s"
    by (simp add: loop_head_def loop_resume_def Let_def)
  ultimately show ?thesis by simp
qed

theorem runningTaskCount_never_negative_witness:
  "nowRunningTask (run [CronTick True, Infinite None, LoopHead 0 None, CronSettled 0 False]
      (new_manager True True)) = 1 \<and>
   open_callbacks (run [CronTick True, Infinite None, LoopHead 0 None, CronSettled 0 False]
      (new_manager True True)) = 1"
  using runningTaskCount_never_negative
    [of "[CronTick True, Infinite None, LoopHead 0 None, CronSettled 0 False]" True True]
  by code_simp

text \<open>
  Every call of \<^verbatim>\<open>process.exit\<close> is made with code 0, with the counter at 0 and the
  kill requested.
\<close>

lemma fire_gate: "exitCode s = None \<Longrightarrow> exit_gate (fire e s)"
proof (cases e)
  case (LoopHead l t)
  assume "exitCode s = None"
  then show ?thesis using LoopHead
    by (auto simp: exit_gate_def loop_head_def loop_resume_def Let_def nextTick_exit
        split: option.splits)
qed (auto simp: exit_gate_def on_SIGUSR1_def on_SIGUSR2_def on_SIGCONT_def on_SIGINT_def
      booking_tick_def booking_resume_def cron_settled_def loop_wake_def loop_settled_def
      loop_resume_def Let_def nextTick_exit split: loop_state.splits)

lemma step_gate: "exit_gate s \<Longrightarrow> exit_gate (step e s)"
  using fire_gate[of s e] by (auto simp: step_def)

lemma run_gate: "exit_gate s \<Longrightarrow> exit_gate (run es s)"
  by (induction es arbitrary: s) (auto intro: step_gate)

lemma exit_only_idle_and_kill:
  "exitCode (run es (new_manager d i)) = Some c \<Longrightarrow>
   c = 0 \<and> nowRunningTask (run es (new_manager d i)) = 0 \<and>
   needKillProcess (run es (new_manager d i))"
  using run_gate[of "new_manager d i" es] by (auto simp: exit_gate_def new_manager_def)

text \<open>
  C2. The gate of \<^verbatim>\<open>nextTick\<close> holds (\<open>exit_only_idle_and_kill\<close>), and where no
  loop has two or more classes nothing is in flight at the exit
  (\<open>nothing_running_at_exit\<close>). But the counter counts callbacks, not runs.
  \<^verbatim>\<open>infinite\<close> is called with two classes and starts the runs 0 and 1; SIGINT arrives
  while both are in flight and the process stays, the counter being 1; run 0 is rejected,
  \<^verbatim>\<open>Promise.all\<close> is rejected with it, the iteration decrements the counter to 0 and
  \<^verbatim>\<open>nextTick\<close> exits with code 0 while run 1 is still in flight.
\<close>

theorem exit_with_run_in_flight:
  "(let s = run [Infinite (Some 2), LoopHead 0 None, SIGINT] (new_manager True True);
        s' = step (LoopSettled 0 0 False) s
    in exitCode s = None \<and> running s = [0, 1] \<and> nowRunningTask s = 1 \<and> needKillProcess s \<and>
       exitCode s' = Some 0 \<and> running s' = [1] \<and> nowRunningTask s' = 0)"
  by code_simp

section \<open>A tick of a booked job\<close>

lemma held_step: "held s \<Longrightarrow> step (CronTick c) s = s"
  by (simp add: step_def booking_tick_def)

lemma held_run: "held s \<Longrightarrow> run (map CronTick cs @ es) s = run es s"
  by (induction cs) (simp_all add: held_step)

lemma unheld_tick:
  assumes "\<not> held s"
  shows "nowRunningTask (booking_tick True s) = nowRunningTask s + 1"
    and "running (booking_tick True s) = nextRun s # running s"
    and "cronAwait (booking_tick True s) = nextRun s # cronAwait s"
    and "exitCode (booking_tick True s) = exitCode s"
  using assms by (simp_all add: booking_tick_def Let_def)

lemma unheld_throw:
  "\<not> held s \<Longrightarrow> booking_tick False s = s\<lparr>consoleErrors := consoleErrors s + 1\<rparr>"
  by (simp add: booking_tick_def booking_resume_def Let_def nextTick_def held_def)

lemma settled_fields:
  "nowRunningTask (cron_settled r ok t) = nowRunningTask t - 1"
  "consoleErrors (cron_settled r ok t) = consoleErrors t + (if ok then 0 else 1)"
  "r \<notin> set (running (cron_settled r ok t))"
  "exitCode (cron_settled r ok t) =
     (if nowRunningTask t - 1 = 0 \<and> needKillProcess t then Some 0 else exitCode t)"
  "held (cron_settled r ok t) = held t"
  by (auto simp: cron_settled_def booking_resume_def Let_def nextTick_def held_def)

text \<open>
  C3. While one of the three flags is set, a tick returns at once: the state is the one
  before it, no run is started, and any number of such ticks followed by any events
  \<open>es\<close> leave the manager where \<open>es\<close> alone would, so nothing of a missed tick is kept
  or replayed. With the three flags clear, a tick increments the counter and starts one
  run (the next run number), which its callback awaits; when that run settles, fulfilled
  or rejected, the callback logs the error of a rejected run, decrements the counter,
  leaves the flags alone and then evaluates the condition of \<^verbatim>\<open>nextTick\<close>. A job
  that throws before it can be awaited is logged and leaves everything else as it was.
\<close>

theorem tick_skipped_or_run:
  "(held s \<longrightarrow> booking_tick constructs s = s \<and> run (map CronTick cs @ es) s = run es s) \<and>
   (\<not> held s \<longrightarrow>
      nowRunningTask (booking_tick True s) = nowRunningTask s + 1 \<and>
      running (booking_tick True s) = nextRun s # running s \<and>
      cronAwait (booking_tick True s) = nextRun s # cronAwait s \<and>
      exitCode (booking_tick True s) = exitCode s \<and>
      booking_tick False s = s\<lparr>consoleErrors := consoleErrors s + 1\<rparr>) \<and>
   nowRunningTask (cron_settled r ok t) = nowRunningTask t - 1 \<and>
   consoleErrors (cron_settled r ok t) = consoleErrors t + (if ok then 0 else 1) \<and>
   r \<notin> set (running (cron_settled r ok t)) \<and>
   held (cron_settled r ok t) = held t \<and>
   exitCode (cron_settled r ok t) =
     (if nowRunningTask t - 1 = 0 \<and> needKillProcess t then Some 0 else exitCode t)"
  using held_run[of s cs es] unheld_tick[of s] settled_fields[of r ok t] unheld_throw[of s]
  by (auto simp: booking_tick_def)

theorem tick_skipped_or_run_witness:
  "held (new_manager True True\<lparr>isIpChanging := True\<rparr>) \<and>
   nextRun (run [CronTick True, CronTick True] (new_manager True True\<lparr>isIpChanging := True\<rparr>)) = 0 \<and>
   \<not> held (new_manager True True) \<and>
   running (booking_tick True (new_manager True True)) = [0] \<and>
   nowRunningTask (booking_tick True (new_manager True True)) = 1 \<and>
   nowRunningTask (cron_settled 0 False (booking_tick True (new_manager True True))) = 0"
  using tick_skipped_or_run[of "new_manager True True\<lparr>isIpChanging := True\<rparr>" True
      "[True, True]" "[]" 0 False "booking_tick True (new_manager True True)"]
    tick_skipped_or_run[of "new_manager True True" True "[]" "[]" 0 False
      "booking_tick True (new_manager True True)"]
  by (simp add: held_def new_manager_def)
section \<open>Runs in flight at the exit\<close>

text \<open>
  Where no loop was given two or more classes, every run in flight has a callback that
  counts it, so the process exits with no run in flight: the booking callback and the
  single-class branch of \<^verbatim>\<open>infinite\<close> do wait for the runs they started.
\<close>

lemma group_update:
  "l < length xs \<Longrightarrow>
   mset (concat (map group_of (xs[l := y]))) + mset (group_of (xs ! l)) =
   mset (concat (map group_of xs)) + mset (group_of y)"
proof (induction xs arbitrary: l)
  case Nil
  then show ?case by simp
next
  case (Cons x xs)
  then show ?case by (cases l) auto
qed

lemma group_simps [simp]:
  "group_of (a, AtHead) = []" "group_of (a, Holding) = []" "group_of (a, Awaiting g) = g"
  by (simp_all add: group_of_def)

lemma group_snd: "snd p = st \<Longrightarrow> group_of p = group_of (fst p, st)"
  by (simp add: group_of_def)

lemma list_all_update: "list_all P xs \<Longrightarrow> P y \<Longrightarrow> list_all P (xs[l := y])"
  by (induction xs arbitrary: l) (auto split: nat.splits)

lemma tidy_nextTick [simp]: "tidy (nextTick s) = tidy s"
  by (simp add: tidy_def waiting_def nextTick_def)

lemma waiting_set_loop:
  assumes "l < length (loops s)"
  shows "mset (waiting (set_loop l st s)) + mset (group_of (loops s ! l)) =
         mset (waiting s) + mset (group_of (fst (loops s ! l), st))"
  using group_update[OF assms, of "(fst (loops s ! l), st)"]
  by (simp add: waiting_def)

lemma awaited_waiting: "awaited s = set (waiting s)"
  by (auto simp: awaited_def waiting_def group_of_def split: loop_state.splits)

lemma tidy_running_set: "tidy s \<Longrightarrow> set (running s) = set (waiting s)"
  by (metis tidy_def set_mset_mset)

lemma tidy_fresh: "tidy s \<Longrightarrow> nextRun s \<notin> set (running s)"
  by (auto simp: tidy_def list_all_iff)

lemma tidy_cron_tick: "tidy s \<Longrightarrow> tidy (booking_tick c s)"
  using tidy_fresh[of s]
  by (auto simp: booking_tick_def booking_resume_def Let_def tidy_def waiting_def
      list_all_iff less_Suc_eq)

lemma tidy_cron_settled:
  assumes "tidy s" "r \<in> set (cronAwait s)"
  shows "tidy (cron_settled r ok s)"
proof -
  from assms(1) have d: "distinct (running s)" by (simp add: tidy_def)
  then have rm: "removeAll r (running s) = remove1 r (running s)"
    by (simp add: distinct_remove1_removeAll)
  have "mset (remove1 r (running s)) = mset (remove1 r (cronAwait s) @ concat (map group_of (loops s)))"
    using assms by (simp add: tidy_def waiting_def)
  then show ?thesis using assms(1) d rm
    by (auto simp: cron_settled_def booking_resume_def Let_def tidy_def waiting_def list_all_iff
        dest: notin_set_remove1)
qed

lemma tidy_infinite: "tidy s \<Longrightarrow> single_only (Infinite tasks) \<Longrightarrow> tidy (fire (Infinite tasks) s)"
  by (cases tasks) (auto simp: tidy_def waiting_def task_count_def)

lemma tidy_set_loop_idle:
  assumes "tidy s" "l < length (loops s)" "group_of (loops s ! l) = []" "st = AtHead \<or> st = Holding"
  shows "tidy (set_loop l st s)"
proof -
  have g: "group_of (fst (loops s ! l), st) = []" using assms(4) by auto
  have "mset (waiting (set_loop l st s)) = mset (waiting s)"
    using waiting_set_loop[OF assms(2), of st] assms(3) g by simp
  moreover have "list_all (\<lambda>p. task_count (fst p) \<le> 1 \<and> length (group_of p) \<le> 1)
      ((loops s)[l := (fst (loops s ! l), st)])"
    using assms(1,2) g by (intro list_all_update) (auto simp: tidy_def list_all_length)
  ultimately show ?thesis using assms(1) by (simp add: tidy_def)
qed

lemma tidy_counter [simp]:
  "tidy (s\<lparr>nowRunningTask := n\<rparr>) = tidy s"
  "tidy (s\<lparr>consoleErrors := m\<rparr>) = tidy s"
  by (simp_all add: tidy_def waiting_def)

lemma tidy_loop_resume:
  assumes "tidy s" "l < length (loops s)" "group_of (loops s ! l) = []"
  shows "tidy (loop_resume l ok s)"
proof -
  let ?s2 = "(if ok then s else s\<lparr>consoleErrors := consoleErrors s + 1\<rparr>)\<lparr>nowRunningTask :=
      nowRunningTask (if ok then s else s\<lparr>consoleErrors := consoleErrors s + 1\<rparr>) - 1\<rparr>"
  have "tidy (nextTick ?s2)" using assms(1) by simp
  moreover have "l < length (loops (nextTick ?s2))" using assms(2) by simp
  moreover have "group_of (loops (nextTick ?s2) ! l) = []" using assms(3) by simp
  ultimately have "tidy (set_loop l AtHead (nextTick ?s2))"
    by (intro tidy_set_loop_idle) auto
  then show ?thesis by (simp add: loop_resume_def Let_def)
qed

lemma tidy_loop_wake:
  assumes "tidy s" "l < length (loops s)" "snd (loops s ! l) = Holding"
  shows "tidy (loop_wake l s)"
proof -
  have "group_of (loops s ! l) = []" using assms(3) by (simp add: group_of_def)
  then have "tidy (set_loop l AtHead (nextTick s))"
    using assms(1,2) by (intro tidy_set_loop_idle) auto
  then show ?thesis by (simp add: loop_wake_def)
qed

lemma tidy_loop_settled:
  assumes "tidy s" "l < length (loops s)" "snd (loops s ! l) = Awaiting g" "r \<in> set g"
  shows "tidy (loop_settled l r ok s)"
proof -
  have go: "group_of (loops s ! l) = g" using assms(3) by (simp add: group_of_def)
  from assms(1,2) have "length (group_of (loops s ! l)) \<le> 1"
    by (simp add: tidy_def list_all_length)
  with go assms(4) have g: "g = [r]" by (cases g) auto
  from assms(1) have d: "distinct (running s)" by (simp add: tidy_def)
  then have rm: "removeAll r (running s) = remove1 r (running s)"
    by (simp add: distinct_remove1_removeAll)
  let ?s1 = "s\<lparr>running := removeAll r (running s)\<rparr>"
  let ?s3 = "set_loop l AtHead ?s1"
  have w: "mset (waiting ?s3) + {#r#} = mset (waiting s)"
    using waiting_set_loop[of l ?s1 AtHead] assms(2) go g by (simp add: waiting_def)
  have rs: "mset (running s) = mset (waiting ?s3) + {#r#}"
    using assms(1) w by (simp add: tidy_def)
  have m: "mset (remove1 r (running s)) = mset (waiting ?s3)"
    by (simp add: rs)
  have la: "list_all (\<lambda>p. task_count (fst p) \<le> 1 \<and> length (group_of p) \<le> 1)
      ((loops s)[l := (fst (loops s ! l), AtHead)])"
    using assms(1,2) by (intro list_all_update) (auto simp: tidy_def list_all_length)
  have b: "list_all (\<lambda>x. x < nextRun s) (remove1 r (running s))"
    using assms(1) by (auto simp: tidy_def list_all_iff dest: notin_set_remove1)
  have t3: "tidy ?s3"
    unfolding tidy_def using d rm m la b by simp
  have t4: "tidy (set_loop l AtHead (nextTick (x\<lparr>nowRunningTask := n\<rparr>))) = tidy (set_loop l AtHead x)" for x n
    by (simp add: tidy_def waiting_def nextTick_def set_loop_def)
  have t5: "tidy (set_loop l AtHead (x\<lparr>consoleErrors := n\<rparr>)) = tidy (set_loop l AtHead x)" for x n
    by (simp add: tidy_def waiting_def set_loop_def)
  have "loop_settled l r ok s = loop_resume l ok ?s1"
    using assms(3) g by (simp add: loop_settled_def Let_def)
  then have "tidy (loop_settled l r ok s) = tidy ?s3"
    by (cases ok) (simp_all add: loop_resume_def Let_def t4 t5)
  with t3 show ?thesis by simp
qed

lemma tidy_loop_head:
  assumes "tidy s" "l < length (loops s)" "snd (loops s ! l) = AtHead"
  shows "tidy (loop_head l t s)"
proof (cases "held s")
  case True
  have "group_of (loops s ! l) = []" using assms(3) by (simp add: group_of_def)
  then have "tidy (set_loop l Holding s)"
    using assms(1,2) by (intro tidy_set_loop_idle) auto
  with True show ?thesis by (simp add: loop_head_def)
next
  case False
  have go: "group_of (loops s ! l) = []" using assms(3) by (simp add: group_of_def)
  let ?n = "task_count (fst (loops s ! l))"
  let ?started = "(case t of None \<Rightarrow> ?n | Some i \<Rightarrow> min i ?n)"
  let ?threw = "(case t of None \<Rightarrow> False | Some i \<Rightarrow> i < ?n)"
  from assms(1,2) have n1: "?n \<le> 1" by (simp add: tidy_def list_all_length)
  show ?thesis
  proof (cases "?started = 0")
    case True
    let ?s1 = "s\<lparr>nowRunningTask := nowRunningTask s + 1\<rparr>"
    have t1: "tidy ?s1" using assms(1) by simp
    have "loop_head l t s = loop_resume l (\<not> ?threw) ?s1"
      using False True by (auto simp: loop_head_def Let_def)
    moreover have "tidy (loop_resume l (\<not> ?threw) ?s1)"
      using t1 assms(2) go by (intro tidy_loop_resume) auto
    ultimately show ?thesis by simp
  next
    case nz: False
    with n1 have st: "?started = 1" by (auto split: option.splits)
    with n1 have nt: "\<not> ?threw" by (auto split: option.splits)
    let ?s1 = "s\<lparr>nowRunningTask := nowRunningTask s + 1,
                   running := [nextRun s] @ running s, nextRun := nextRun s + 1\<rparr>"
    have eq: "loop_head l t s = set_loop l (Awaiting [nextRun s]) ?s1"
      using False st nt by (simp add: loop_head_def Let_def)
    have w: "mset (waiting (set_loop l (Awaiting [nextRun s]) ?s1)) = mset (waiting s) + {#nextRun s#}"
      using waiting_set_loop[of l ?s1 "Awaiting [nextRun s]"] assms(2) go
      by (simp add: waiting_def)
    have la: "list_all (\<lambda>p. task_count (fst p) \<le> 1 \<and> length (group_of p) \<le> 1)
        ((loops s)[l := (fst (loops s ! l), Awaiting [nextRun s])])"
      using assms(1,2) by (intro list_all_update) (auto simp: tidy_def list_all_length)
    have "tidy (set_loop l (Awaiting [nextRun s]) ?s1)"
      unfolding tidy_def using assms(1) w la tidy_fresh[OF assms(1)]
      by (auto simp: tidy_def list_all_iff less_Suc_eq)
    with eq show ?thesis by simp
  qed
qed

lemma tidy_stray: "tidy s \<Longrightarrow> tidy (fire (StraySettled r) s)"
  using tidy_running_set[of s] by (auto simp: awaited_waiting)

lemma tidy_signal:
  "tidy (on_SIGUSR1 s) = tidy s" "tidy (on_SIGUSR2 s) = tidy s"
  "tidy (on_SIGCONT s) = tidy s" "tidy (on_SIGINT s) = tidy s"
  by (simp_all add: on_SIGUSR1_def on_SIGUSR2_def on_SIGCONT_def on_SIGINT_def tidy_def
      waiting_def nextTick_def)

lemma tidy_fire: "tidy s \<Longrightarrow> single_only e \<Longrightarrow> tidy (fire e s)"
proof (cases e)
  case (Infinite tasks)
  assume "tidy s" "single_only e"
  then show ?thesis using Infinite tidy_infinite by simp
next
  case (LoopSettled l r ok)
  assume "tidy s" "single_only e"
  then show ?thesis using LoopSettled tidy_loop_settled[of s l _ r ok]
    by (auto split: loop_state.splits)
next
  case (StraySettled r)
  assume "tidy s" "single_only e"
  then show ?thesis using StraySettled tidy_stray by simp
next
  case (CronTick c)
  assume "tidy s" "single_only e"
  then show ?thesis using CronTick tidy_cron_tick by simp
next
  case (CronSettled r ok)
  assume "tidy s" "single_only e"
  then show ?thesis using CronSettled tidy_cron_settled by simp
next
  case (LoopHead l t)
  assume "tidy s" "single_only e"
  then show ?thesis using LoopHead tidy_loop_head by simp
next
  case (LoopWake l)
  assume "tidy s" "single_only e"
  then show ?thesis using LoopWake tidy_loop_wake by simp
qed (simp_all add: tidy_signal)

lemma tidy_run: "tidy s \<Longrightarrow> list_all single_only es \<Longrightarrow> tidy (run es s)"
  by (induction es arbitrary: s) (auto simp: step_def tidy_fire)

lemma nothing_running_at_exit:
  assumes "list_all single_only es" and "exitCode (run es (new_manager d i)) \<noteq> None"
  shows "running (run es (new_manager d i)) = []"
proof -
  let ?s = "run es (new_manager d i)"
  have "tidy (new_manager d i)" by (simp add: tidy_def waiting_def new_manager_def)
  then have t: "tidy ?s" using assms(1) by (rule tidy_run)
  have b: "balanced ?s" by (rule run_balanced[OF new_manager_balanced])
  have g: "exit_gate ?s" by (rule run_gate) (simp add: exit_gate_def new_manager_def)
  with assms(2) have "nowRunningTask ?s = 0" by (auto simp: exit_gate_def)
  with b have "open_callbacks ?s = 0" by (simp add: balanced_def)
  then have "length (cronAwait ?s) + length (filter is_awaiting (loops ?s)) = 0"
    by (simp only: open_callbacks_def)
  then have 0: "cronAwait ?s = []" "filter is_awaiting (loops ?s) = []"
    by simp_all
  have "group_of p = []" if "p \<in> set (loops ?s)" for p
    using 0(2) that by (auto simp: filter_empty_conv is_awaiting_def group_of_def split: loop_state.splits)
  then have "concat (map group_of (loops ?s)) = []" by simp
  with 0(1) have "waiting ?s = []" by (simp add: waiting_def)
  with t show ?thesis by (simp add: tidy_def)
qed

section \<open>The election by pid file\<close>









text \<open>
  \<^verbatim>\<open>isSupervisionProcess\<close> is its two system calls with nothing in between, and then
  it returns: the read after a failed create finds the file.
\<close>

lemma isSupervisionProcess_steps:
  "isSupervisionProcess path own fs =
     (case proc_step path own (proc_step path own (fs, AtOpen)) of
        (fs1, Compared b) \<Rightarrow> (fs1, Inr b)
      | (fs1, other) \<Rightarrow> (fs1, Inr True))"
  by (auto simp: isSupervisionProcess_def writeFileSync_wx_def open_wx_def readFileSync_def
      write_pid_def split: option.splits)

lemma isSupervisionProcess_returns:
  "\<exists>fs1 b. isSupervisionProcess path own fs = (fs1, Inr b)"
  by (auto simp: isSupervisionProcess_def writeFileSync_wx_def open_wx_def readFileSync_def
      split: option.splits)





section \<open>The remediation\<close>

declare confirm.simps [simp del]

lemma polling_Suc:
  "polling (Suc n) = MyIpFromRemote # Usleep MYIP_CHECK_RETRY_DURATION # polling n"
  by (simp add: polling_def)

lemma polling_no_emit: "filter is_emit (polling n) = []"
  by (induction n) (simp_all add: polling_def)



lemma polling_lookups: "count_list (polling n) MyIpFromRemote = n"
  by (induction n) (simp_all add: polling_def)


text \<open>The loop when no lookup from attempt \<open>i\<close> on returns the new address.\<close>

lemma confirm_exhausted:
  "\<forall>k. i \<le> k \<and> k < MYIP_CHECK_RETRY \<longrightarrow> myIpFromRemote c k \<noteq> Resolved b \<Longrightarrow>
   confirm c (Some b) i = (False, polling (MYIP_CHECK_RETRY - i))"
proof (induction c "Some b" i rule: confirm.induct)
  case (1 c i)
  show ?case
  proof (cases "i < MYIP_CHECK_RETRY")
    case True
    then have s: "MYIP_CHECK_RETRY - i = Suc (MYIP_CHECK_RETRY - Suc i)" by simp
    from True 1(2) have no: "myIpFromRemote c i \<noteq> Resolved b" by simp
    then have cond:
      "\<not> (case myIpFromRemote c i of
             Rejected \<Rightarrow> False | Resolved ipFromRemote \<Rightarrow> Some ipFromRemote = Some b)"
      by (auto split: reply.splits)
    have "confirm c (Some b) (Suc i) = (False, polling (MYIP_CHECK_RETRY - Suc i))"
      using 1(1)[OF True cond] 1(2) by simp
    then show ?thesis using True cond s
      by (subst confirm.simps) (simp add: polling_Suc)
  next
    case False
    then show ?thesis by (subst confirm.simps) (simp add: polling_def)
  qed
qed

text \<open>The loop when the lookup of attempt \<open>k\<close> returns the new address.\<close>

lemma confirm_found:
  "i \<le> k \<Longrightarrow> k < MYIP_CHECK_RETRY \<Longrightarrow> myIpFromRemote c k = Resolved b \<Longrightarrow>
   \<exists>j. j \<le> k - i \<and> confirm c (Some b) i = (True, polling j @ [MyIpFromRemote])"
proof (induction c "Some b" i rule: confirm.induct)
  case (1 c i)
  from 1(2,3) have lt: "i < MYIP_CHECK_RETRY" by simp
  show ?case
  proof (cases "myIpFromRemote c i = Resolved b")
    case True
    then have "confirm c (Some b) i = (True, polling 0 @ [MyIpFromRemote])"
      using lt by (subst confirm.simps) (simp add: polling_def)
    then show ?thesis by blast
  next
    case False
    then have cond:
      "\<not> (case myIpFromRemote c i of
             Rejected \<Rightarrow> False | Resolved ipFromRemote \<Rightarrow> Some ipFromRemote = Some b)"
      by (auto split: reply.splits)
    from False 1(2,4) have next_le: "Suc i \<le> k" by (cases "i = k") auto
    from 1(1)[OF lt cond this 1(3) 1(4)]
    obtain j where j: "j \<le> k - Suc i"
      "confirm c (Some b) (Suc i) = (True, polling j @ [MyIpFromRemote])"
      by blast
    have "confirm c (Some b) i = (True, polling (Suc j) @ [MyIpFromRemote])"
      using lt cond j(2) by (subst confirm.simps) (simp add: polling_Suc)
    moreover have "Suc j \<le> k - i" using j(1) next_le by simp
    ultimately show ?thesis by blast
  qed
qed

lemma confirm_calls:
  "\<exists>n. n \<le> MYIP_CHECK_RETRY - i \<and>
       (snd (confirm c newIp i) = polling n \<or>
        snd (confirm c newIp i) = polling n @ [MyIpFromRemote])"
proof (induction c newIp i rule: confirm.induct)
  case (1 c newIp i)
  show ?case
  proof (cases "i < MYIP_CHECK_RETRY")
    case False
    then have "snd (confirm c newIp i) = polling 0"
      by (subst confirm.simps) (simp add: polling_def)
    then show ?thesis by blast
  next
    case True
    show ?thesis
    proof (cases "case myIpFromRemote c i of
                    Rejected \<Rightarrow> False | Resolved ipFromRemote \<Rightarrow> Some ipFromRemote = newIp")
      case yes: True
      then have "snd (confirm c newIp i) = polling 0 @ [MyIpFromRemote]"
        using True by (subst confirm.simps) (simp add: polling_def)
      then show ?thesis by blast
    next
      case no: False
      from 1[OF True no] obtain n where n: "n \<le> MYIP_CHECK_RETRY - Suc i"
        "snd (confirm c newIp (Suc i)) = polling n \<or>
         snd (confirm c newIp (Suc i)) = polling n @ [MyIpFromRemote]"
        by blast
      have "snd (confirm c newIp i) =
          MyIpFromRemote # Usleep MYIP_CHECK_RETRY_DURATION # snd (confirm c newIp (Suc i))"
        using True no by (subst confirm.simps) (simp split: prod.splits)
      then have "snd (confirm c newIp i) = polling (Suc n) \<or>
          snd (confirm c newIp i) = polling (Suc n) @ [MyIpFromRemote]"
        using n(2) by (auto simp: polling_Suc)
      moreover have "Suc n \<le> MYIP_CHECK_RETRY - i" using n(1) True by simp
      ultimately show ?thesis by blast
    qed
  qed
qed

lemma confirm_no_emit: "filter is_emit (snd (confirm c newIp i)) = []"
  using confirm_calls[of i c newIp] by (auto simp: polling_no_emit)



lemma rotate_no_emit: "filter is_emit (fst (rotate_address c info)) = []"
  by (auto simp: rotate_address_def Let_def split: reply.splits option.splits)

lemma request_no_emit: "filter is_emit (fst (requestChangeIpV6 c)) = []"
  using confirm_no_emit rotate_no_emit
  by (auto simp: requestChangeIpV6_def Let_def split: reply.splits sum.splits prod.splits)
     (metis fst_conv snd_conv)+

lemma push_ips_eq: "push_ips xs acc = acc @ [a. Some a \<leftarrow> xs, a \<noteq> []]"
  by (induction xs arbitrary: acc) (auto simp: truthy_def split: option.splits)

text \<open>
  The addresses \<^verbatim>\<open>networkInfo\<close> returns are all the addresses of the interface it
  picked, in their order.
\<close>

lemma networkInfo_ips:
  assumes "networkInfo (Resolved (Some detail)) = Inr info"
  shows "\<exists>ninterface. pick_interface detail = Some ninterface \<and>
           NetworkInterfaceId ninterface = Some (ni_id info) \<and>
           ni_ips info = [a. Some a \<leftarrow> or_empty (Ipv6Addresses ninterface), a \<noteq> []]"
  using assms
  by (auto simp: networkInfo_def push_ips_eq split: option.splits if_splits)

lemma example_networkInfo:
  "networkInfo (describeInstances (example_cloud assigned echo)) =
     Inr \<lparr> ni_id = ''eni-0'', ni_ips = [bound_address] \<rparr>"
  by (simp add: example_cloud_def networkInfo_def pick_interface_def or_empty_def truthy_def
      bound_address_def)

text \<open>
  C5. When the interface was found, the old addresses were unassigned and the first
  address the assignment returns is one of them, \<^verbatim>\<open>requestChangeIpV6\<close> makes these
  four calls and throws: it does not sleep and makes no lookup.
\<close>

theorem reused_address_fails_at_once:
  assumes "metadata c = Resolved meta"
    and "networkInfo (describeInstances c) = Inr info"
    and "unassignIpv6Addresses c = Resolved ()"
    and "assignIpv6Addresses c = Resolved (Some assigned)"
    and "AssignedIpv6Addresses assigned = Some (a # rest)"
    and "a \<in> set (ni_ips info)"
  shows "requestChangeIpV6 c =
           ([GetMetadata, DescribeInstances (instanceId meta),
             UnassignIpv6Addresses (ni_id info) (ni_ips info),
             AssignIpv6Addresses (ni_id info) 1], Inl AddressReused) \<and>
         count_list (fst (requestChangeIpV6 c)) MyIpFromRemote = 0"
proof -
  from assms(6) have ne: "ni_ips info \<noteq> []" by auto
  have "rotate_address c info =
      ([UnassignIpv6Addresses (ni_id info) (ni_ips info), AssignIpv6Addresses (ni_id info) 1],
       Inl AddressReused)"
    using assms ne by (simp add: rotate_address_def Let_def first_address_def index_found_def)
  then have "requestChangeIpV6 c =
           ([GetMetadata, DescribeInstances (instanceId meta),
             UnassignIpv6Addresses (ni_id info) (ni_ips info),
             AssignIpv6Addresses (ni_id info) 1], Inl AddressReused)"
    using assms(1,2) by (simp add: requestChangeIpV6_def Let_def)
  then show ?thesis by simp
qed

theorem reused_address_fails_at_once_witness:
  "requestChangeIpV6 (example_cloud (Some [bound_address]) (\<lambda>i. Resolved bound_address)) =
     ([GetMetadata, DescribeInstances ''i-0'', UnassignIpv6Addresses ''eni-0'' [bound_address],
       AssignIpv6Addresses ''eni-0'' 1], Inl AddressReused)"
proof -
  let ?c = "example_cloud (Some [bound_address]) (\<lambda>i. Resolved bound_address)"
  have 1: "metadata ?c = Resolved \<lparr> region = ''ap-northeast-2'', instanceId = ''i-0'' \<rparr>"
    by (simp add: example_cloud_def)
  have 2: "networkInfo (describeInstances ?c) = Inr \<lparr> ni_id = ''eni-0'', ni_ips = [bound_address] \<rparr>"
    by (rule example_networkInfo)
  have 3: "unassignIpv6Addresses ?c = Resolved ()"
    by (simp add: example_cloud_def)
  have 4: "assignIpv6Addresses ?c = Resolved (Some \<lparr> AssignedIpv6Addresses = Some [bound_address] \<rparr>)"
    by (simp add: example_cloud_def)
  have 5: "AssignedIpv6Addresses \<lparr> AssignedIpv6Addresses = Some [bound_address] \<rparr> =
      Some (bound_address # [])"
    by simp
  have 6: "bound_address \<in> set (ni_ips \<lparr> ni_id = ''eni-0'', ni_ips = [bound_address] \<rparr>)"
    by simp
  from reused_address_fails_at_once[OF 1 2 3 4 5 6] show ?thesis by simp
qed






text \<open>Removing the pid file removes it, and a pid file already removed is no error.\<close>

lemma unlink_tolerant:
  "unlinkPidFile path fs path = None \<and> (fs path = None \<longrightarrow> unlinkPidFile path fs = fs) \<and>
   (other \<noteq> path \<longrightarrow> unlinkPidFile path fs other = fs other)"
  by (auto simp: unlinkPidFile_def unlinkSync_def split: option.splits)

text \<open>
  C8. A call of \<^verbatim>\<open>changeIpv6\<close> that is elected and not busy runs the remediation
  and, whatever its result, clears \<open>isWorking\<close> and removes the pid file. When the
  remediation failed, the calls after it are the unlink and then the emission of SIGUSR1
  exactly when \<open>discardIfFailed\<close> is set, no other signal is emitted, and the error is
  the result. When it succeeded, the unlink is followed by the emission of SIGCONT, the
  only signal emitted. For any file system \<open>fs0\<close> without the pid file, the unlink
  returns it unchanged instead of failing.
\<close>

theorem release_then_signal:
  assumes "isSupervisionProcess path own fs = (fs1, Inr True)"
  shows "(case changeIpv6 path own discardIfFailed c (fs, False) of
            ((fs2, isWorking), calls, result) \<Rightarrow>
              fs2 path = None \<and> \<not> isWorking \<and> result = snd (requestChangeIpV6 c) \<and>
              (case result of
                 Inl e \<Rightarrow>
                   calls = fst (requestChangeIpV6 c) @ [UnlinkPidFile path] @
                             (if discardIfFailed then [Emit SIGUSR1] else []) \<and>
                   filter is_emit calls = (if discardIfFailed then [Emit SIGUSR1] else [])
               | Inr newIp \<Rightarrow>
                   calls = fst (requestChangeIpV6 c) @ [UnlinkPidFile path, Emit SIGCONT] \<and>
                   filter is_emit calls = [Emit SIGCONT])) \<and>
         (fs0 path = None \<longrightarrow> unlinkPidFile path fs0 = fs0)"
proof -
  obtain calls res where r: "requestChangeIpV6 c = (calls, res)"
    by (cases "requestChangeIpV6 c")
  have ne: "filter is_emit calls = []" using request_no_emit[of c] r by simp
  show ?thesis using assms r ne unlink_tolerant[of path fs1] unlink_tolerant[of path fs0]
    by (cases res) (auto simp: changeIpv6_def)
qed

theorem release_then_signal_witness:
  "(case changeIpv6 (ip_manager_pidFile ''/tmp'') 7 True
           (example_cloud None (\<lambda>i. Rejected)) (\<lambda>path. None, False) of
      ((fs2, isWorking), calls, result) \<Rightarrow>
        fs2 (ip_manager_pidFile ''/tmp'') = None \<and> result = Inl NoAddressAssigned \<and>
        filter is_emit calls = [Emit SIGUSR1]) \<and>
   (case changeIpv6 (ip_manager_pidFile ''/tmp'') 7 True
           (example_cloud (Some [fresh_address]) (\<lambda>i. Resolved fresh_address))
           (\<lambda>path. None, False) of
      ((fs2, isWorking), calls, result) \<Rightarrow>
        fs2 (ip_manager_pidFile ''/tmp'') = None \<and> result = Inr (Some fresh_address) \<and>
        filter is_emit calls = [Emit SIGCONT]) \<and>
   unlinkPidFile (ip_manager_pidFile ''/tmp'') (\<lambda>path. None) = (\<lambda>path. None)"
proof -
  let ?ok = "example_cloud (Some [fresh_address]) (\<lambda>i. Resolved fresh_address)"
  have ne: "fresh_address \<noteq> bound_address"
    by (simp add: fresh_address_def bound_address_def)
  have 3: "snd (requestChangeIpV6 ?ok) = Inr (Some fresh_address)"
    using example_networkInfo[of "Some [fresh_address]" "\<lambda>i. Resolved fresh_address"] ne
    by (simp add: requestChangeIpV6_def rotate_address_def Let_def example_cloud_def
        first_address_def index_found_def confirm.simps[of _ _ 0] MYIP_CHECK_RETRY_def)
  let ?c = "example_cloud None (\<lambda>i. Rejected)"
  let ?p = "ip_manager_pidFile ''/tmp''"
  have 1: "isSupervisionProcess ?p 7 (\<lambda>path. None) = ((\<lambda>path. None)(?p \<mapsto> Pid 7), Inr True)"
    by (simp add: isSupervisionProcess_def writeFileSync_wx_def open_wx_def write_pid_def)
  have 2: "snd (requestChangeIpV6 ?c) = Inl NoAddressAssigned"
    using example_networkInfo[of None "\<lambda>i. Rejected"]
    by (simp add: requestChangeIpV6_def rotate_address_def Let_def example_cloud_def)
  from release_then_signal[OF 1, where discardIfFailed = True and c = "?c"
      and ?fs0.0 = "\<lambda>path. None"] 2
  have a: "(case changeIpv6 ?p 7 True ?c (\<lambda>path. None, False) of
      ((fs2, isWorking), calls, result) \<Rightarrow>
        fs2 ?p = None \<and> result = Inl NoAddressAssigned \<and> filter is_emit calls = [Emit SIGUSR1]) \<and>
      unlinkPidFile ?p (\<lambda>path. None) = (\<lambda>path. None)"
    by (auto split: prod.splits sum.splits)
  from release_then_signal[OF 1, where discardIfFailed = True and c = "?ok"
      and ?fs0.0 = "\<lambda>path. None"] 3
  have b: "(case changeIpv6 ?p 7 True ?ok (\<lambda>path. None, False) of
      ((fs2, isWorking), calls, result) \<Rightarrow>
        fs2 ?p = None \<and> result = Inr (Some fresh_address) \<and> filter is_emit calls = [Emit SIGCONT])"
    by (auto split: prod.splits sum.splits)
  from a b show ?thesis by simp
qed

text \<open>
  C7. The call is elected and not busy, the interface is bound to \<open>[A]\<close>, the
  unassignment resolves, the assignment returns \<open>[B]\<close>, and \<open>B\<close> is not \<open>A\<close>. If the
  lookup of some attempt \<open>k\<close> below 30 returns \<open>B\<close>, then \<^verbatim>\<open>changeIpv6\<close> returns
  \<open>B\<close> and its calls are: the metadata, the interface, one unassignment of \<open>[A]\<close>, one
  assignment of one address, the lead time, \<open>j\<close> lookups that did not confirm (errors
  among them) with a sleep after each, for some \<open>j\<close> up to \<open>k\<close>, the lookup that
  confirms, the unlink and the emission of SIGCONT, whose handler clears \<open>isIpChanging\<close>.
  If none of the 30 lookups returns \<open>B\<close>, all 30 are made and the call throws.
\<close>

theorem remediation_success:
  assumes "isSupervisionProcess path own fs = (fs1, Inr True)"
    and "metadata c = Resolved meta"
    and "networkInfo (describeInstances c) = Inr \<lparr>ni_id = nid, ni_ips = [A]\<rparr>"
    and "unassignIpv6Addresses c = Resolved ()"
    and "assignIpv6Addresses c = Resolved (Some \<lparr>AssignedIpv6Addresses = Some [B]\<rparr>)"
    and "B \<noteq> A"
  shows "(k < MYIP_CHECK_RETRY \<and> myIpFromRemote c k = Resolved B \<longrightarrow>
           (\<exists>j \<le> k. changeIpv6 path own discardIfFailed c (fs, False) =
              ((unlinkPidFile path fs1, False),
               [GetMetadata, DescribeInstances (instanceId meta),
                UnassignIpv6Addresses nid [A], AssignIpv6Addresses nid 1,
                Usleep IP_CHANGE_LEADTIME] @ polling j @
               [MyIpFromRemote, UnlinkPidFile path, Emit SIGCONT],
               Inr (Some B)))) \<and>
         ((\<forall>k < MYIP_CHECK_RETRY. myIpFromRemote c k \<noteq> Resolved B) \<longrightarrow>
            changeIpv6 path own discardIfFailed c (fs, False) =
              ((unlinkPidFile path fs1, False),
               [GetMetadata, DescribeInstances (instanceId meta),
                UnassignIpv6Addresses nid [A], AssignIpv6Addresses nid 1,
                Usleep IP_CHANGE_LEADTIME] @ polling MYIP_CHECK_RETRY @
               [UnlinkPidFile path] @ (if discardIfFailed then [Emit SIGUSR1] else []),
               Inl ConfirmationExhausted)) \<and>
         \<not> isIpChanging (fire SIGCONT s) \<and> MYIP_CHECK_RETRY = 30 \<and>
         MYIP_CHECK_RETRY_DURATION = 5000"
proof -
  have rot: "rotate_address c \<lparr>ni_id = nid, ni_ips = [A]\<rparr> =
      ([UnassignIpv6Addresses nid [A], AssignIpv6Addresses nid 1], Inr (Some B))"
    using assms(4,5,6) by (simp add: rotate_address_def Let_def first_address_def index_found_def)
  have req: "requestChangeIpV6 c =
      (case confirm c (Some B) 0 of
         (ok, polls) \<Rightarrow>
           ([GetMetadata, DescribeInstances (instanceId meta),
             UnassignIpv6Addresses nid [A], AssignIpv6Addresses nid 1,
             Usleep IP_CHANGE_LEADTIME] @ polls,
            if ok then Inr (Some B) else Inl ConfirmationExhausted))"
    using assms(2,3) rot by (simp add: requestChangeIpV6_def Let_def split: prod.splits)
  have found: "k < MYIP_CHECK_RETRY \<and> myIpFromRemote c k = Resolved B \<Longrightarrow>
      \<exists>j\<le>k. confirm c (Some B) 0 = (True, polling j @ [MyIpFromRemote])"
    using confirm_found[of 0 k c B] by auto
  have none: "\<forall>k < MYIP_CHECK_RETRY. myIpFromRemote c k \<noteq> Resolved B \<Longrightarrow>
      confirm c (Some B) 0 = (False, polling MYIP_CHECK_RETRY)"
    using confirm_exhausted[of 0 c B] by simp
  have a: "k < MYIP_CHECK_RETRY \<and> myIpFromRemote c k = Resolved B \<longrightarrow>
           (\<exists>j \<le> k. changeIpv6 path own discardIfFailed c (fs, False) =
              ((unlinkPidFile path fs1, False),
               [GetMetadata, DescribeInstances (instanceId meta),
                UnassignIpv6Addresses nid [A], AssignIpv6Addresses nid 1,
                Usleep IP_CHANGE_LEADTIME] @ polling j @
               [MyIpFromRemote, UnlinkPidFile path, Emit SIGCONT],
               Inr (Some B)))"
  proof
    assume "k < MYIP_CHECK_RETRY \<and> myIpFromRemote c k = Resolved B"
    from found[OF this] obtain j where j: "j \<le> k"
      "confirm c (Some B) 0 = (True, polling j @ [MyIpFromRemote])"
      by blast
    then show "\<exists>j \<le> k. changeIpv6 path own discardIfFailed c (fs, False) =
              ((unlinkPidFile path fs1, False),
               [GetMetadata, DescribeInstances (instanceId meta),
                UnassignIpv6Addresses nid [A], AssignIpv6Addresses nid 1,
                Usleep IP_CHANGE_LEADTIME] @ polling j @
               [MyIpFromRemote, UnlinkPidFile path, Emit SIGCONT],
               Inr (Some B))"
      using assms(1) req by (intro exI[of _ j]) (simp add: changeIpv6_def)
  qed
  have b: "(\<forall>k < MYIP_CHECK_RETRY. myIpFromRemote c k \<noteq> Resolved B) \<longrightarrow>
            changeIpv6 path own discardIfFailed c (fs, False) =
              ((unlinkPidFile path fs1, False),
               [GetMetadata, DescribeInstances (instanceId meta),
                UnassignIpv6Addresses nid [A], AssignIpv6Addresses nid 1,
                Usleep IP_CHANGE_LEADTIME] @ polling MYIP_CHECK_RETRY @
               [UnlinkPidFile path] @ (if discardIfFailed then [Emit SIGUSR1] else []),
               Inl ConfirmationExhausted)"
  proof
    assume "\<forall>k < MYIP_CHECK_RETRY. myIpFromRemote c k \<noteq> Resolved B"
    from none[OF this] show "changeIpv6 path own discardIfFailed c (fs, False) =
              ((unlinkPidFile path fs1, False),
               [GetMetadata, DescribeInstances (instanceId meta),
                UnassignIpv6Addresses nid [A], AssignIpv6Addresses nid 1,
                Usleep IP_CHANGE_LEADTIME] @ polling MYIP_CHECK_RETRY @
               [UnlinkPidFile path] @ (if discardIfFailed then [Emit SIGUSR1] else []),
               Inl ConfirmationExhausted)"
      using assms(1) req by (simp add: changeIpv6_def)
  qed
  have c: "\<not> isIpChanging (fire SIGCONT s)" by (simp add: on_SIGCONT_def)
  show ?thesis using a b c by (simp add: MYIP_CHECK_RETRY_def MYIP_CHECK_RETRY_DURATION_def)
qed

theorem remediation_success_witness:
  "snd (snd (changeIpv6 (ip_manager_pidFile ''/tmp'') 7 True
      (example_cloud (Some [fresh_address])
         (\<lambda>i. if i = 2 then Resolved fresh_address else Rejected))
      (\<lambda>path. None, False))) = Inr (Some fresh_address) \<and>
   snd (snd (changeIpv6 (ip_manager_pidFile ''/tmp'') 7 True
      (example_cloud (Some [fresh_address]) (\<lambda>i. Resolved bound_address))
      (\<lambda>path. None, False))) = Inl ConfirmationExhausted"
proof -
  let ?c = "example_cloud (Some [fresh_address])
         (\<lambda>i. if i = 2 then Resolved fresh_address else Rejected)"
  let ?c' = "example_cloud (Some [fresh_address]) (\<lambda>i. Resolved bound_address)"
  let ?p = "ip_manager_pidFile ''/tmp''"
  have 1: "isSupervisionProcess ?p 7 (\<lambda>path. None) = ((\<lambda>path. None)(?p \<mapsto> Pid 7), Inr True)"
    by (simp add: isSupervisionProcess_def writeFileSync_wx_def open_wx_def write_pid_def)
  have 2: "metadata ?c = Resolved \<lparr> region = ''ap-northeast-2'', instanceId = ''i-0'' \<rparr>"
    "metadata ?c' = Resolved \<lparr> region = ''ap-northeast-2'', instanceId = ''i-0'' \<rparr>"
    by (simp_all add: example_cloud_def)
  have 3: "networkInfo (describeInstances ?c) = Inr \<lparr> ni_id = ''eni-0'', ni_ips = [bound_address] \<rparr>"
    "networkInfo (describeInstances ?c') = Inr \<lparr> ni_id = ''eni-0'', ni_ips = [bound_address] \<rparr>"
    by (rule example_networkInfo)+
  have 4: "unassignIpv6Addresses ?c = Resolved ()" "unassignIpv6Addresses ?c' = Resolved ()"
    by (simp_all add: example_cloud_def)
  have 5: "assignIpv6Addresses ?c = Resolved (Some \<lparr>AssignedIpv6Addresses = Some [fresh_address]\<rparr>)"
    "assignIpv6Addresses ?c' = Resolved (Some \<lparr>AssignedIpv6Addresses = Some [fresh_address]\<rparr>)"
    by (simp_all add: example_cloud_def)
  have 6: "fresh_address \<noteq> bound_address"
    by (simp add: fresh_address_def bound_address_def)
  have 7: "(2::nat) < MYIP_CHECK_RETRY \<and> myIpFromRemote ?c 2 = Resolved fresh_address"
    by (simp add: MYIP_CHECK_RETRY_def example_cloud_def)
  have 8: "\<forall>k < MYIP_CHECK_RETRY. myIpFromRemote ?c' k \<noteq> Resolved fresh_address"
    using 6 by (simp add: example_cloud_def)
  note found = remediation_success[OF 1 2(1) 3(1) 4(1) 5(1) 6, where k = 2
      and discardIfFailed = True and s = "new_manager True True", THEN conjunct1]
  note exhausted = remediation_success[OF 1 2(2) 3(2) 4(2) 5(2) 6, where k = 0
      and discardIfFailed = True and s = "new_manager True True", THEN conjunct2, THEN conjunct1]
  from found 7 obtain j where
    "changeIpv6 ?p 7 True ?c (\<lambda>path. None, False) =
       ((unlinkPidFile ?p ((\<lambda>path. None)(?p \<mapsto> Pid 7)), False),
        [GetMetadata, DescribeInstances (instanceId \<lparr> region = ''ap-northeast-2'', instanceId = ''i-0'' \<rparr>),
         UnassignIpv6Addresses ''eni-0'' [bound_address], AssignIpv6Addresses ''eni-0'' 1,
         Usleep IP_CHANGE_LEADTIME] @ polling j @
        [MyIpFromRemote, UnlinkPidFile ?p, Emit SIGCONT],
        Inr (Some fresh_address))"
    by blast
  then have a: "snd (snd (changeIpv6 ?p 7 True ?c (\<lambda>path. None, False))) = Inr (Some fresh_address)"
    by simp
  from exhausted 8 have
    b: "snd (snd (changeIpv6 ?p 7 True ?c' (\<lambda>path. None, False))) = Inl ConfirmationExhausted"
    by simp
  from a b show ?thesis by simp
qed

section \<open>The drain of the decommission\<close>

lemma stop_others_tasks:
  "snd (stop_others own procs (spm, tasks)) = tasks @ stop_requests own procs"
proof (induction procs arbitrary: spm tasks)
  case Nil
  then show ?case by (simp add: stop_requests_def List.map_filter_simps)
next
  case (Cons proc rest)
  then show ?case
    by (auto simp: stop_requests_def List.map_filter_simps drain_target_def split: option.splits)
qed

lemma stop_requests_mem:
  "i \<in> set (stop_requests own procs) \<longleftrightarrow>
     (\<exists>proc \<in> set procs. pm_id proc = Some i \<and> drain_target own proc)"
  by (induction procs)
     (auto simp: stop_requests_def List.map_filter_simps split: option.splits)

lemma drain_calls:
  assumes "connectPM2 h = Resolved ()" "nodeProcesses h = Resolved processList"
  shows "fst (drain own h) =
           [ConnectPM2, ListProcesses] @ map StopProcess (stop_requests own processList)"
    and "snd (drain own h) = Inl StopRejected \<longleftrightarrow>
           (\<exists>i \<in> set (stop_requests own processList). stopNodeProcess h i = Rejected)"
proof -
  obtain spm tasks where s: "stop_others own processList (None, []) = (spm, tasks)"
    by (cases "stop_others own processList (None, [])")
  then have t: "tasks = stop_requests own processList"
    using stop_others_tasks[of own processList None "[]"] by simp
  show "fst (drain own h) =
      [ConnectPM2, ListProcesses] @ map StopProcess (stop_requests own processList)"
    using assms s t by (simp add: drain_def Let_def)
  have "r \<noteq> Resolved () \<longleftrightarrow> r = Rejected" for r :: "unit reply"
    by (cases r) auto
  then show "snd (drain own h) = Inl StopRejected \<longleftrightarrow>
           (\<exists>i \<in> set (stop_requests own processList). stopNodeProcess h i = Rejected)"
    using assms s t by (auto simp: drain_def Let_def list_all_iff)
qed

text \<open>
  C9. With pm2 connected and the process list \<open>processList\<close> returned, the calls of the
  drain are the connection, the listing and one stop for each target that has a pm2 id,
  in the order of the list: a stop is requested for the id \<open>i\<close> exactly when some
  process of the list has the id \<open>i\<close>, is online or launching and is not the
  coordinating process. Where the ids of the list are distinct, no stop is requested for
  a stopped process nor for the coordinating one. And when the stop of one target is
  rejected, the attempt ends there: no termination is requested, the pid file and the
  timer stay, the busy flag is cleared and the retry is set.
\<close>

theorem drain_targets_and_abort:
  assumes "connectPM2 h = Resolved ()" and "nodeProcesses h = Resolved processList"
  shows "fst (drain own h) =
           [ConnectPM2, ListProcesses] @ map StopProcess (stop_requests own processList) \<and>
         (\<forall>i. StopProcess i \<in> set (fst (drain own h)) \<longleftrightarrow>
              (\<exists>proc \<in> set processList. pm_id proc = Some i \<and> drain_target own proc)) \<and>
         (inj_on pm_id {p \<in> set processList. pm_id p \<noteq> None} \<longrightarrow>
            (\<forall>proc \<in> set processList. \<forall>i. pm_id proc = Some i \<and>
                (pm2_env proc = Some (Some stopped) \<or> pid proc = Some own) \<longrightarrow>
                StopProcess i \<notin> set (fst (drain own h)))) \<and>
         ((\<exists>proc \<in> set processList. \<exists>i. pm_id proc = Some i \<and> drain_target own proc \<and>
              stopNodeProcess h i = Rejected) \<longrightarrow>
            discard_try path own h (d, fs) =
              ((d\<lparr>discarding := False\<rparr>, fs),
               fst (drain own h) @ [RetryDiscardAfter RETRY_INTERVAL], Retrying StopRejected))"
proof -
  note dc = drain_calls[OF assms, of own]
  have 1: "\<forall>i. StopProcess i \<in> set (fst (drain own h)) \<longleftrightarrow>
              (\<exists>proc \<in> set processList. pm_id proc = Some i \<and> drain_target own proc)"
    using dc(1) stop_requests_mem[of _ own processList] by auto
  have 2: "inj_on pm_id {p \<in> set processList. pm_id p \<noteq> None} \<longrightarrow>
            (\<forall>proc \<in> set processList. \<forall>i. pm_id proc = Some i \<and>
                (pm2_env proc = Some (Some stopped) \<or> pid proc = Some own) \<longrightarrow>
                StopProcess i \<notin> set (fst (drain own h)))"
  proof (intro impI ballI allI)
    fix proc i
    assume dist: "inj_on pm_id {p \<in> set processList. pm_id p \<noteq> None}"
      and mem: "proc \<in> set processList"
      and p: "pm_id proc = Some i \<and> (pm2_env proc = Some (Some stopped) \<or> pid proc = Some own)"
    show "StopProcess i \<notin> set (fst (drain own h))"
    proof
      assume "StopProcess i \<in> set (fst (drain own h))"
      with 1 obtain proc' where p': "proc' \<in> set processList" "pm_id proc' = Some i"
        "drain_target own proc'"
        by blast
      with dist mem p have "proc' = proc"
        using inj_onD[of pm_id "{p \<in> set processList. pm_id p \<noteq> None}" proc' proc] by simp
      with p p'(3) show False by (auto simp: drain_target_def)
    qed
  qed
  have 3: "(\<exists>proc \<in> set processList. \<exists>i. pm_id proc = Some i \<and> drain_target own proc \<and>
              stopNodeProcess h i = Rejected) \<longrightarrow>
            discard_try path own h (d, fs) =
              ((d\<lparr>discarding := False\<rparr>, fs),
               fst (drain own h) @ [RetryDiscardAfter RETRY_INTERVAL], Retrying StopRejected)"
  proof
    assume "\<exists>proc \<in> set processList. \<exists>i. pm_id proc = Some i \<and> drain_target own proc \<and>
              stopNodeProcess h i = Rejected"
    then have "\<exists>i \<in> set (stop_requests own processList). stopNodeProcess h i = Rejected"
      using stop_requests_mem[of _ own processList] by blast
    with dc(2) have "snd (drain own h) = Inl StopRejected" by simp
    then show "discard_try path own h (d, fs) =
              ((d\<lparr>discarding := False\<rparr>, fs),
               fst (drain own h) @ [RetryDiscardAfter RETRY_INTERVAL], Retrying StopRejected)"
      by (cases "drain own h") (simp add: discard_try_def discard_catch_def)
  qed
  show ?thesis using dc(1) 1 2 3 by blast
qed

theorem drain_targets_and_abort_witness:
  "fst (drain 7 busy_host) = [ConnectPM2, ListProcesses, StopProcess 1, StopProcess 3] \<and>
   StopProcess 0 \<notin> set (fst (drain 7 busy_host)) \<and>
   StopProcess 2 \<notin> set (fst (drain 7 busy_host)) \<and>
   discard_try (discarder_pidFile ''/tmp'') 7 busy_host
       (new_discarder None\<lparr>discarding := True, killProcessTimeoutHandle := Some 600000\<rparr>,
        (\<lambda>path. None)(discarder_pidFile ''/tmp'' \<mapsto> Pid 7)) =
     ((new_discarder None\<lparr>discarding := False, killProcessTimeoutHandle := Some 600000\<rparr>,
       (\<lambda>path. None)(discarder_pidFile ''/tmp'' \<mapsto> Pid 7)),
      [ConnectPM2, ListProcesses, StopProcess 1, StopProcess 3, RetryDiscardAfter 10000],
      Retrying StopRejected)"
proof -
  have 1: "connectPM2 busy_host = Resolved ()" by (simp add: busy_host_def)
  have 2: "nodeProcesses busy_host = Resolved four_processes" by (simp add: busy_host_def)
  have 3: "stop_requests 7 four_processes = [1, 3]"
    by (simp add: stop_requests_def four_processes_def List.map_filter_simps drain_target_def)
  have 4: "\<exists>proc \<in> set four_processes. \<exists>i. pm_id proc = Some i \<and> drain_target 7 proc \<and>
      stopNodeProcess busy_host i = Rejected"
    by (simp add: four_processes_def drain_target_def busy_host_def)
  note t = drain_targets_and_abort[OF 1 2, where own = 7 and path = "discarder_pidFile ''/tmp''"
      and d = "new_discarder None\<lparr>discarding := True, killProcessTimeoutHandle := Some 600000\<rparr>"
      and fs = "(\<lambda>path. None)(discarder_pidFile ''/tmp'' \<mapsto> Pid 7)"]
  from t 3 have a: "fst (drain 7 busy_host) = [ConnectPM2, ListProcesses, StopProcess 1, StopProcess 3]"
    by simp
  have 5: "inj_on pm_id {p \<in> set four_processes. pm_id p \<noteq> None}"
    by (auto simp: inj_on_def four_processes_def)
  have 6: "\<lparr> pid = Some 0, pm_id = Some 2, pm2_env = Some (Some stopped) \<rparr> \<in> set four_processes"
    "\<lparr> pid = Some 7, pm_id = Some 0, pm2_env = Some (Some online) \<rparr> \<in> set four_processes"
    by (simp_all add: four_processes_def)
  from t 5 6 have b: "StopProcess 0 \<notin> set (fst (drain 7 busy_host))"
    "StopProcess 2 \<notin> set (fst (drain 7 busy_host))"
    by force+
  from t 4 a b show ?thesis by (simp add: RETRY_INTERVAL_def new_discarder_def)
qed

section \<open>The timer of the decommission\<close>















end
